theory Spec2Isabelle
  imports Complex_Main "HOL-Library.AList" "HOL-Library.Sublist"
begin

section \<open>Python values used by the engine\<close>

text \<open>
  Truthiness of an optional string, as Python's \<^verbatim>\<open>if d.get(key):\<close> tests it:
  \<^verbatim>\<open>None\<close> and the empty string are false, every other string is true.
\<close>

definition truthy :: "string option \<Rightarrow> bool" where
  "truthy v = (case v of None \<Rightarrow> False | Some s \<Rightarrow> s \<noteq> [])"

text \<open>
  Python's \<^verbatim>\<open>str(n)\<close> on an integer: the decimal digits, most significant first,
  with a leading minus sign for a negative number.
\<close>

definition digit_char :: "nat \<Rightarrow> char" where
  "digit_char d = char_of (48 + d)"

function str_nat :: "nat \<Rightarrow> string" where
  "str_nat n = (if n < 10 then [digit_char n] else str_nat (n div 10) @ [digit_char (n mod 10)])"
  by pat_completeness auto
termination
  by (relation "measure (\<lambda>n. n)") auto

declare str_nat.simps [simp del]

definition py_str :: "int \<Rightarrow> string" where
  "py_str i = (if i < 0 then CHR ''-'' # str_nat (nat (- i)) else str_nat (nat i))"

text \<open>The inverse of \<open>str_nat\<close>, used to show that distinct numbers print differently.\<close>

definition nat_of_digits :: "string \<Rightarrow> nat" where
  "nat_of_digits s = foldl (\<lambda>a c. 10 * a + (of_char c - 48)) 0 s"

text \<open>Python's \<^verbatim>\<open>int(x)\<close> on a float: truncation towards zero.\<close>

definition py_int :: "real \<Rightarrow> int" where
  "py_int x = (if 0 \<le> x then \<lfloor>x\<rfloor> else \<lceil>x\<rceil>)"

text \<open>
  The bounds Python and numpy give the slice \<^verbatim>\<open>a[lo:hi]\<close> of an axis of length \<open>n\<close>: a
  negative bound counts from the end, and both are clamped to the axis. The slice is empty
  when the second bound does not exceed the first.
\<close>

definition py_slice :: "int \<Rightarrow> int \<Rightarrow> int \<Rightarrow> int \<times> int" where
  "py_slice n lo hi =
     ((if lo < 0 then max (n + lo) 0 else min lo n),
      (if hi < 0 then max (n + hi) 0 else min hi n))"

section \<open>The alert record (app/models/alert.py)\<close>

datatype AlertType = STRANGER | KNOWN | BLACKLIST

datatype AlertLevel = INFO | WARNING | CRITICAL

datatype AlertStatus = PENDING | PROCESSED | IGNORED

text \<open>One entry of the JSON list \<^verbatim>\<open>image_history\<close>: the keys \<^verbatim>\<open>ts\<close>, \<^verbatim>\<open>face\<close>, \<^verbatim>\<open>score\<close>.\<close>

record history_entry =
  h_ts :: real
  h_face :: "string option"
  h_score :: "real option"

text \<open>
  A row of the table \<^verbatim>\<open>alert_logs\<close>. Nullable columns are options. The JSON column
  \<^verbatim>\<open>extra_data\<close> is a dictionary from keys to optional strings. Times are seconds on the
  real line. The primary key \<^verbatim>\<open>id\<close> is called \<open>alert_id\<close>.
\<close>

record AlertLog =
  alert_id :: nat
  track_id :: "string option"
  camera_id :: int
  alert_type :: AlertType
  alert_level :: AlertLevel
  person_id :: "int option"
  confidence :: "real option"
  face_image_path :: "string option"
  best_body_image_path :: "string option"
  full_image_path :: "string option"
  image_history :: "history_entry list option"
  face_bbox :: "(int \<times> int \<times> int \<times> int) option"
  status :: AlertStatus
  is_reviewed :: bool
  processed_by :: "nat option"
  processed_at :: "real option"
  process_remark :: "string option"
  extra_data :: "(string \<rightharpoonup> string option) option"
  created_at :: real
  start_time :: "real option"
  end_time :: "real option"

section \<open>Tracker events (app/engine/analyzers/tracker.py)\<close>

text \<open>
  The values the field \<^verbatim>\<open>TrackerEvent.type\<close> takes in the source; the last one is written by
  the engine manager when the face is recognised.
\<close>

datatype EventType = FACE_DETECTED | BODY_DETECTED | PERSON_LEFT | KNOWN_PERSON_DETECTED

type_synonym box = "int \<times> int \<times> int \<times> int"

text \<open>
  An image crop is represented by the region of the frame it copies, \<open>(y1, y2, x1, x2)\<close>,
  the rows from \<open>y1\<close> up to \<open>y2\<close> and the columns from \<open>x1\<close> up to \<open>x2\<close>, with the bounds
  as the slice resolves them; pixel contents are not represented. \<open>None\<close> is Python's
  \<^verbatim>\<open>None\<close>. A crop with no row or no column is an empty array.
\<close>

type_synonym image = "int \<times> int \<times> int \<times> int"

definition image_empty :: "image \<Rightarrow> bool" where
  "image_empty img = (case img of (y1, y2, x1, x2) \<Rightarrow> y2 \<le> y1 \<or> x2 \<le> x1)"

text \<open>The crop \<^verbatim>\<open>frame[y1:y2, x1:x2]\<close> of a frame of height \<open>h\<close> and width \<open>w\<close>.\<close>

definition crop :: "int \<Rightarrow> int \<Rightarrow> int \<Rightarrow> int \<Rightarrow> int \<Rightarrow> int \<Rightarrow> image" where
  "crop h w y1 y2 x1 x2 =
     (fst (py_slice h y1 y2), snd (py_slice h y1 y2),
      fst (py_slice w x1 x2), snd (py_slice w x1 x2))"

record TrackerEvent =
  ev_type :: EventType
  ev_track_id :: int
  ev_timestamp :: real
  ev_face_image :: "image option"
  ev_body_image :: "image option"
  ev_full_image :: "image option"
  ev_face_score :: real
  ev_body_score :: real
  ev_face_box :: "box option"
  ev_body_box :: "box option"
  ev_is_best_shot :: bool
  ev_alert_level :: AlertLevel

section \<open>Building the alert data (app/engine/manager.py, \<^verbatim>\<open>_handle_analysis_events\<close>)\<close>

text \<open>
  The dictionary \<^verbatim>\<open>alert_data\<close>. The keys the manager always writes are plain fields; the
  keys read with \<^verbatim>\<open>.get\<close> that may be absent or \<^verbatim>\<open>None\<close> are options. The keys
  \<^verbatim>\<open>is_update\<close>, \<^verbatim>\<open>original_alert_id\<close> and \<^verbatim>\<open>id\<close> are added by the callback.
\<close>

record alert_data =
  d_track_id :: "string option"
  d_camera_id :: int
  d_alert_type :: AlertType
  d_alert_level :: AlertLevel
  d_person_id :: "int option"
  d_person_name :: "string option"
  d_face_image :: "string option"
  d_body_image :: "string option"
  d_full_image :: "string option"
  d_timestamp :: real
  d_score :: "real option"
  d_is_update :: "bool option"
  d_original_alert_id :: "nat option"
  d_id :: "nat option"

text \<open>
  \<^verbatim>\<open>save_img(img, suffix)\<close>: nothing for a missing image, otherwise the path
  \<^verbatim>\<open>"/static/" + rel_path\<close>. The relative path is computed by the operating system's path
  functions from the capture directory, the camera, the track and the time; it is the
  parameter \<open>rel\<close>, a function of the suffix. \<^verbatim>\<open>cv2.imwrite\<close> raises on an empty array: the
  outer \<open>None\<close>.
\<close>

definition save_img ::
  "(string \<Rightarrow> string) \<Rightarrow> image option \<Rightarrow> string \<Rightarrow> string option option" where
  "save_img rel img sfx =
     (case img of
        None \<Rightarrow> Some None
      | Some i \<Rightarrow> if image_empty i then None else Some (Some (''/static/'' @ rel sfx)))"

text \<open>
  \<^verbatim>\<open>_save_event_images\<close>: the full frame, the face and the body, saved in this order; the
  paths under the keys \<^verbatim>\<open>face\<close>, \<^verbatim>\<open>body\<close>, \<^verbatim>\<open>full\<close>, or \<open>None\<close> when a save raised.
\<close>

definition save_event_images ::
  "(string \<Rightarrow> string) \<Rightarrow> TrackerEvent
     \<Rightarrow> (string option \<times> string option \<times> string option) option" where
  "save_event_images rel ev =
     (case save_img rel (ev_full_image ev) ''full'' of
        None \<Rightarrow> None
      | Some full_path \<Rightarrow>
          (case save_img rel (ev_face_image ev) ''face'' of
             None \<Rightarrow> None
           | Some face_path \<Rightarrow>
               (case save_img rel (ev_body_image ev) ''body'' of
                  None \<Rightarrow> None
                | Some body_path \<Rightarrow> Some (face_path, body_path, full_path))))"

text \<open>
  The answer of the recognition service: \<^verbatim>\<open>None\<close>, or a JSON object whose
  \<^verbatim>\<open>result\<close> is a list with one entry per face, each holding its list of
  \<^verbatim>\<open>subjects\<close> as pairs (similarity, subject name). An object with no \<^verbatim>\<open>result\<close> is
  treated by the manager like one with an empty list, and is written so.
\<close>

type_synonym recognition = "(real \<times> string) list list option"

text \<open>
  Step 2 of the loop body: \<open>(is_known, person_name)\<close>. Reading
  \<^verbatim>\<open>resp['result'][0]['subjects'][0]\<close> raises IndexError on an empty list of subjects:
  the result \<open>None\<close>. The face crop of an event that reaches this step is not empty, so
  encoding it does not raise.
\<close>

definition recognise_event ::
  "real \<Rightarrow> TrackerEvent \<Rightarrow> recognition \<Rightarrow> (bool \<times> string option) option" where
  "recognise_event threshold ev resp =
     (if ev_type ev = FACE_DETECTED \<and> ev_face_image ev \<noteq> None then
        (case resp of
           None \<Rightarrow> Some (False, None)
         | Some [] \<Rightarrow> Some (False, None)
         | Some ([] # _) \<Rightarrow> None
         | Some (((sim, name) # _) # _) \<Rightarrow>
             if sim \<ge> threshold then Some (True, Some name) else Some (False, None))
      else Some (False, None))"

text \<open>
  Steps 1 to 4 of the loop body of \<^verbatim>\<open>_handle_analysis_events\<close> for one event: the images
  are saved, the face is recognised, the level is decided and the dictionary handed to
  the alert callback is built. The result is \<open>None\<close> when the loop body raised.
  \<open>threshold\<close> is \<^verbatim>\<open>settings.COMPREFACE_THRESHOLD\<close>.
\<close>

definition handle_analysis_event ::
  "real \<Rightarrow> (string \<Rightarrow> string) \<Rightarrow> int \<Rightarrow> TrackerEvent \<Rightarrow> recognition \<Rightarrow> alert_data option" where
  "handle_analysis_event threshold rel cam ev resp =
     (case save_event_images rel ev of
        None \<Rightarrow> None
      | Some (face_path, body_path, full_path) \<Rightarrow>
     (case recognise_event threshold ev resp of
        None \<Rightarrow> None
      | Some (is_known, person_name) \<Rightarrow>
          let typ = (if is_known then KNOWN_PERSON_DETECTED else ev_type ev);
              a_type = (if is_known then KNOWN else STRANGER);
              a_level = (if is_known then INFO
                         else if ev_type ev = BODY_DETECTED then WARNING
                         else ev_alert_level ev)
          in Some \<lparr> d_track_id = Some (py_str (ev_track_id ev)),
                    d_camera_id = cam,
                    d_alert_type = a_type,
                    d_alert_level = a_level,
                    d_person_id = None,
                    d_person_name = person_name,
                    d_face_image = face_path,
                    d_body_image = body_path,
                    d_full_image = full_path,
                    d_timestamp = ev_timestamp ev,
                    d_score = Some (if typ \<noteq> BODY_DETECTED then ev_face_score ev
                                    else ev_body_score ev),
                    d_is_update = None,
                    d_original_alert_id = None,
                    d_id = None \<rparr>))"

section \<open>The alert callback (app/websocket/handlers.py, \<^verbatim>\<open>engine_alert_callback\<close>)\<close>

text \<open>
  The table is the list of its rows in insertion order. The query
  \<^verbatim>\<open>where track_id == t and camera_id == c order by created_at desc limit 1\<close> yields the
  position of a matching row of greatest \<open>created_at\<close>; among rows of equal time the
  database's choice is modelled as the earliest inserted.
\<close>

definition matching_rows :: "AlertLog list \<Rightarrow> string \<Rightarrow> int \<Rightarrow> nat list" where
  "matching_rows db t c =
     filter (\<lambda>i. track_id (db ! i) = Some t \<and> camera_id (db ! i) = c) [0..<length db]"

fun pick_latest :: "AlertLog list \<Rightarrow> nat list \<Rightarrow> nat option" where
  "pick_latest db [] = None"
| "pick_latest db (i # rest) =
     (case pick_latest db rest of
        None \<Rightarrow> Some i
      | Some j \<Rightarrow> if created_at (db ! j) > created_at (db ! i) then Some j else Some i)"

definition latest_alert :: "AlertLog list \<Rightarrow> string \<Rightarrow> int \<Rightarrow> nat option" where
  "latest_alert db t c = pick_latest db (matching_rows db t c)"

text \<open>The lookup is made only for a truthy track id.\<close>

definition find_existing :: "AlertLog list \<Rightarrow> alert_data \<Rightarrow> nat option" where
  "find_existing db d =
     (case d_track_id d of
        None \<Rightarrow> None
      | Some t \<Rightarrow> if t \<noteq> [] then latest_alert db t (d_camera_id d) else None)"

text \<open>
  The merge of an event into the existing row: the three branches of lines 238 to 273.
  The result is the row as the commit stores it, the alert data and the flag
  \<^verbatim>\<open>should_push\<close>. In the first branch the person's name is written into the dictionary
  \<^verbatim>\<open>existing_alert.extra_data or {}\<close>. A stored dictionary that is not empty is changed in
  place and assigned back as the same object, which the session does not see as a change:
  the stored row keeps its \<^verbatim>\<open>extra_data\<close>. Only when the stored value is \<^verbatim>\<open>None\<close> or
  empty is a new dictionary stored.
\<close>

definition merge_existing :: "AlertLog \<Rightarrow> alert_data \<Rightarrow> AlertLog \<times> alert_data \<times> bool" where
  "merge_existing r d =
     (if d_alert_type d = KNOWN then
        (r \<lparr> alert_type := KNOWN,
             alert_level := INFO,
             person_id := d_person_id d,
             extra_data :=
               (if truthy (d_person_name d)
                then (case extra_data r of
                        None \<Rightarrow> Some [''person_name'' \<mapsto> d_person_name d]
                      | Some e \<Rightarrow>
                          if e = Map.empty then Some [''person_name'' \<mapsto> d_person_name d]
                          else Some e)
                else extra_data r),
             status := PROCESSED,
             face_image_path :=
               (if truthy (d_face_image d) then d_face_image d else face_image_path r) \<rparr>,
         d \<lparr> d_is_update := Some True, d_original_alert_id := Some (alert_id r) \<rparr>,
         True)
      else if alert_level r = INFO \<and> d_alert_level d = CRITICAL then
        (r \<lparr> alert_level := CRITICAL,
             alert_type := STRANGER,
             face_image_path := d_face_image d,
             status := PENDING \<rparr>,
         d \<lparr> d_is_update := Some True, d_original_alert_id := Some (alert_id r) \<rparr>,
         True)
      else
        (r \<lparr> face_image_path :=
               (if truthy (d_face_image d) then d_face_image d else face_image_path r),
             best_body_image_path :=
               (if truthy (d_body_image d) then d_body_image d
                else best_body_image_path r) \<rparr>,
         d,
         False))"

text \<open>The entry appended to the image history, at clock reading \<open>now\<close>.\<close>

definition history_item :: "real \<Rightarrow> alert_data \<Rightarrow> history_entry" where
  "history_item now d = \<lparr> h_ts = now, h_face = d_face_image d, h_score = d_score d \<rparr>"

text \<open>Lines 275 to 283: the end time and the history, after any of the three branches.\<close>

definition touch :: "real \<Rightarrow> alert_data \<Rightarrow> AlertLog \<Rightarrow> AlertLog" where
  "touch now d r =
     r \<lparr> end_time := Some now,
         image_history :=
           Some ((case image_history r of None \<Rightarrow> [] | Some h \<Rightarrow> h) @ [history_item now d]) \<rparr>"

text \<open>The key the database gives a new row: one more than the greatest key in the table.\<close>

definition fresh_id :: "AlertLog list \<Rightarrow> nat" where
  "fresh_id db = Suc (fold max (map alert_id db) 0)"

text \<open>
  Lines 291 to 306: the new row. The constructor sets no status: the column defaults
  apply (\<^verbatim>\<open>status\<close> PENDING, \<^verbatim>\<open>is_reviewed\<close> False, the creation and start times the
  clock).
\<close>

definition new_alert :: "real \<Rightarrow> AlertLog list \<Rightarrow> alert_data \<Rightarrow> AlertLog" where
  "new_alert now db d =
     \<lparr> alert_id = fresh_id db,
       track_id = d_track_id d,
       camera_id = d_camera_id d,
       alert_type = d_alert_type d,
       alert_level = d_alert_level d,
       person_id = None,
       confidence = d_score d,
       face_image_path = d_face_image d,
       best_body_image_path = d_body_image d,
       full_image_path = d_full_image d,
       image_history = Some [history_item now d],
       face_bbox = None,
       status = PENDING,
       is_reviewed = False,
       processed_by = None,
       processed_at = None,
       process_remark = None,
       extra_data = Some [''person_name'' \<mapsto> d_person_name d],
       created_at = now,
       start_time = Some now,
       end_time = None \<rparr>"

text \<open>
  The callback, run to its end with no other callback in between, on a database whose
  operations succeed, at clock reading \<open>now\<close>: the new table, the alert data as the
  callback leaves it, and the list of messages handed to \<^verbatim>\<open>push_alert\<close> (one call for each
  element).
\<close>

definition engine_alert_callback ::
  "real \<Rightarrow> AlertLog list \<Rightarrow> alert_data \<Rightarrow> AlertLog list \<times> alert_data \<times> alert_data list" where
  "engine_alert_callback now db d =
     (case find_existing db d of
        Some i \<Rightarrow>
          (case merge_existing (db ! i) d of
             (r, d1, should_push) \<Rightarrow>
               let r2 = touch now d1 r;
                   d2 = d1 \<lparr> d_id := Some (alert_id r2) \<rparr>
               in (db[i := r2], d2, if should_push then [d2] else []))
      | None \<Rightarrow>
          let r = new_alert now db d;
              d2 = d \<lparr> d_id := Some (alert_id r) \<rparr>
          in (db @ [r], d2, [d2]))"

text \<open>
  One event through the engine and the callback: the manager schedules the callback with
  the alert data it built; an event whose handling raised reaches no callback.
\<close>

definition process_event ::
  "real \<Rightarrow> (string \<Rightarrow> string) \<Rightarrow> real \<Rightarrow> int \<Rightarrow> AlertLog list \<Rightarrow> TrackerEvent \<Rightarrow> recognition
     \<Rightarrow> AlertLog list \<times> alert_data list" where
  "process_event threshold rel now cam db ev resp =
     (case handle_analysis_event threshold rel cam ev resp of
        None \<Rightarrow> (db, [])
      | Some d \<Rightarrow> (case engine_alert_callback now db d of (db2, _, pushed) \<Rightarrow> (db2, pushed)))"

section \<open>The alert cooldown manager (app/engine/recognition/face_recognizer.py)\<close>

text \<open>
  The dictionary \<^verbatim>\<open>_last_alert_time\<close> is an association list in insertion order, keyed by
  (camera id, subject key). The clock reading \<^verbatim>\<open>time.time()\<close> is the parameter
  \<open>current_time\<close>.
\<close>

record AlertCooldownManager =
  cooldown_seconds :: real
  last_alert_time :: "((int \<times> string) \<times> real) list"

text \<open>
  The second component of the key, \<^verbatim>\<open>str(person_id) if person_id else "stranger"\<close>:
  \<^verbatim>\<open>None\<close> and the integer 0 are both false in Python.
\<close>

definition subject_key :: "int option \<Rightarrow> string" where
  "subject_key pid =
     (case pid of
        None \<Rightarrow> ''stranger''
      | Some p \<Rightarrow> if p \<noteq> 0 then py_str p else ''stranger'')"

definition can_alert :: "AlertCooldownManager \<Rightarrow> real \<Rightarrow> int \<Rightarrow> int option \<Rightarrow> bool" where
  "can_alert m current_time cam pid =
     (let key = (cam, subject_key pid);
          last_time = (case map_of (last_alert_time m) key of None \<Rightarrow> 0 | Some t \<Rightarrow> t)
      in if current_time - last_time < cooldown_seconds m then False else True)"

definition record_alert ::
  "AlertCooldownManager \<Rightarrow> real \<Rightarrow> int \<Rightarrow> int option \<Rightarrow> AlertCooldownManager" where
  "record_alert m current_time cam pid =
     m \<lparr> last_alert_time :=
           AList.update (cam, subject_key pid) current_time (last_alert_time m) \<rparr>"

definition clear_alerts :: "AlertCooldownManager \<Rightarrow> AlertCooldownManager" where
  "clear_alerts m = m \<lparr> last_alert_time := [] \<rparr>"

definition cleanup_expired :: "AlertCooldownManager \<Rightarrow> real \<Rightarrow> AlertCooldownManager \<times> nat" where
  "cleanup_expired m current_time =
     (let expired_keys =
            map fst (filter (\<lambda>(key, last_time). current_time - last_time > cooldown_seconds m * 2)
                            (last_alert_time m))
      in (m \<lparr> last_alert_time :=
                 filter (\<lambda>(key, last_time). key \<notin> set expired_keys) (last_alert_time m) \<rparr>,
          length expired_keys))"

section \<open>Frame capture (app/engine/capture/camera_capture.py)\<close>

text \<open>The dataclass \<^verbatim>\<open>CaptureConfig\<close>; its camera id is called \<open>cap_camera_id\<close>.\<close>

record CaptureConfig =
  rtsp_url :: string
  cap_camera_id :: int
  username :: "string option"
  password :: "string option"
  target_fps :: int
  queue_size :: int
  reconnect_interval :: real
  max_reconnect_interval :: real
  reconnect_backoff :: real
  connection_timeout :: real
  read_timeout :: real

text \<open>
  Python's \<^verbatim>\<open>queue.Queue(maxsize)\<close> with no other thread at work: the items in arrival
  order. The queue is full when \<^verbatim>\<open>0 < maxsize <= qsize()\<close>; with \<^verbatim>\<open>maxsize <= 0\<close> it is
  never full. \<^verbatim>\<open>put_nowait\<close> raises \<^verbatim>\<open>Full\<close> on a full queue and \<^verbatim>\<open>get_nowait\<close> raises
  \<^verbatim>\<open>Empty\<close> on an empty one.
\<close>

datatype queue_error = Full | Empty

record 'a frame_queue =
  maxsize :: int
  items :: "'a list"

definition new_queue :: "int \<Rightarrow> 'a frame_queue" where
  "new_queue n = \<lparr> maxsize = n, items = [] \<rparr>"

definition full :: "'a frame_queue \<Rightarrow> bool" where
  "full q = (0 < maxsize q \<and> maxsize q \<le> int (length (items q)))"

definition put_nowait :: "'a frame_queue \<Rightarrow> 'a \<Rightarrow> queue_error + 'a frame_queue" where
  "put_nowait q x = (if full q then Inl Full else Inr (q \<lparr> items := items q @ [x] \<rparr>))"

definition get_nowait :: "'a frame_queue \<Rightarrow> queue_error + ('a \<times> 'a frame_queue)" where
  "get_nowait q = (case items q of [] \<Rightarrow> Inl Empty | x # xs \<Rightarrow> Inr (x, q \<lparr> items := xs \<rparr>))"

text \<open>
  Lines 349 to 357 of \<^verbatim>\<open>_capture_loop\<close>: put the frame; on \<^verbatim>\<open>Full\<close> take the oldest
  frame out and put again; \<^verbatim>\<open>Empty\<close> from the inner block is swallowed, \<^verbatim>\<open>Full\<close> from
  the inner put is not caught there and leaves the block (\<open>Inl\<close>).
\<close>

definition enqueue_frame :: "'a frame_queue \<Rightarrow> 'a \<Rightarrow> queue_error + 'a frame_queue" where
  "enqueue_frame q frame_data =
     (case put_nowait q frame_data of
        Inr q1 \<Rightarrow> Inr q1
      | Inl _ \<Rightarrow>
          (case get_nowait q of
             Inl _ \<Rightarrow> Inr q
           | Inr (_, q1) \<Rightarrow>
               (case put_nowait q1 frame_data of
                  Inr q2 \<Rightarrow> Inr q2
                | Inl e \<Rightarrow> Inl e)))"

text \<open>Successive frames enqueued with no consumer taking any out.\<close>

fun enqueue_all :: "'a frame_queue \<Rightarrow> 'a list \<Rightarrow> queue_error + 'a frame_queue" where
  "enqueue_all q [] = Inr q"
| "enqueue_all q (x # xs) =
     (case enqueue_frame q x of Inl e \<Rightarrow> Inl e | Inr q1 \<Rightarrow> enqueue_all q1 xs)"

text \<open>
  \<^verbatim>\<open>_reconnect\<close>. What one pass of its loop observes of the world: the stop event already
  set at the loop head; the connection made; the connection failed and the stop event set
  during the wait; the connection failed and the wait ran its full time. The loop runs as
  long as the world lets it: the list of observations is the run so far, and a run whose
  observations are used up has not returned yet (\<open>None\<close>). The result carries the waits
  made, in order, and the reconnect counter.
\<close>

datatype attempt = StopSet | Connected | FailedStopDuringWait | FailedWaited

fun reconnect_loop :: "CaptureConfig \<Rightarrow> real \<Rightarrow> nat \<Rightarrow> attempt list \<Rightarrow> bool option \<times> real list \<times> nat" where
  "reconnect_loop cfg interval cnt [] = (None, [], cnt)"
| "reconnect_loop cfg interval cnt (StopSet # env) = (Some False, [], cnt)"
| "reconnect_loop cfg interval cnt (Connected # env) = (Some True, [], Suc cnt)"
| "reconnect_loop cfg interval cnt (FailedStopDuringWait # env) = (Some False, [interval], Suc cnt)"
| "reconnect_loop cfg interval cnt (FailedWaited # env) =
     (case reconnect_loop cfg (min (interval * reconnect_backoff cfg) (max_reconnect_interval cfg))
             (Suc cnt) env of
        (r, waits, n) \<Rightarrow> (r, interval # waits, n))"

definition reconnect :: "CaptureConfig \<Rightarrow> nat \<Rightarrow> attempt list \<Rightarrow> bool option \<times> real list \<times> nat" where
  "reconnect cfg cnt env = reconnect_loop cfg (reconnect_interval cfg) cnt env"

definition waits :: "CaptureConfig \<Rightarrow> attempt list \<Rightarrow> real list" where
  "waits cfg env = fst (snd (reconnect cfg 0 env))"

section \<open>The face database (app/engine/recognition/face_database.py)\<close>

text \<open>
  Embeddings are vectors of one common dimension, written as lists of reals; numpy's
  floating-point arithmetic is read on the real line. The dictionary \<^verbatim>\<open>_persons\<close> is an
  association list in insertion order.
\<close>

type_synonym embedding = "real list"

record PersonFeature =
  pf_person_id :: int
  pf_name :: string
  pf_group_id :: "int option"
  pf_group_name :: "string option"
  pf_embeddings :: "embedding list"
  pf_created_at :: real


record FaceDatabase =
  similarity_threshold :: real
  persons :: "(int \<times> PersonFeature) list"
  feature_matrix :: "embedding list option"
  feature_ids :: "int list"
  total_embeddings :: nat


text \<open>
  \<^verbatim>\<open>np.linalg.norm\<close> and the division by the norm clipped below at \<^verbatim>\<open>1e-10\<close>. The sum of
  the products of two vectors taken position by position is \<open>inner\<close>; \<^verbatim>\<open>np.dot\<close> of two
  vectors is that sum when they have one length and raises otherwise (\<open>None\<close>), and
  \<^verbatim>\<open>np.dot\<close> of a matrix and a vector, \<open>matvec\<close>, needs every row to have the length of the
  vector.
\<close>

definition l2_norm :: "embedding \<Rightarrow> real" where
  "l2_norm v = sqrt (sum_list (map (\<lambda>x. x * x) v))"

definition normalise :: "embedding \<Rightarrow> embedding" where
  "normalise v = map (\<lambda>x. x / max (l2_norm v) (1 / 10 ^ 10)) v"

definition inner :: "embedding \<Rightarrow> embedding \<Rightarrow> real" where
  "inner u v = sum_list (map (\<lambda>(a, b). a * b) (zip u v))"

definition dot :: "embedding \<Rightarrow> embedding \<Rightarrow> real option" where
  "dot u v = (if length u = length v then Some (inner u v) else None)"


text \<open>
  \<^verbatim>\<open>_rebuild_feature_matrix\<close>: every embedding of every person, in dictionary order, each
  with the key of its person; the matrix holds the normalised rows. \<^verbatim>\<open>_feature_ids\<close> is
  replaced first. \<^verbatim>\<open>np.vstack\<close> raises when the embeddings do not all have one length:
  then the matrix and the count keep their old values, and the second component of the
  result is \<open>False\<close>.
\<close>

definition labelled_embeddings :: "(int \<times> PersonFeature) list \<Rightarrow> (embedding \<times> int) list" where
  "labelled_embeddings ps =
     concat (map (\<lambda>(person_id, person). map (\<lambda>emb. (emb, person_id)) (pf_embeddings person)) ps)"

definition rebuild_feature_matrix :: "FaceDatabase \<Rightarrow> FaceDatabase \<times> bool" where
  "rebuild_feature_matrix db =
     (let embeddings = map fst (labelled_embeddings (persons db));
          db1 = db \<lparr> feature_ids := map snd (labelled_embeddings (persons db)) \<rparr>
      in if embeddings \<noteq> []
         then (if list_all (\<lambda>e. length e = length (hd embeddings)) embeddings
               then (db1 \<lparr> feature_matrix := Some (map normalise embeddings),
                           total_embeddings := length embeddings \<rparr>, True)
               else (db1, False))
         else (db1 \<lparr> feature_matrix := None, total_embeddings := 0 \<rparr>, True))"

text \<open>
  The operations that change the registry. Their result is \<open>Some\<close> of the returned boolean,
  or \<open>None\<close> when the rebuild raised; the state is the one left behind in either case.
\<close>

definition after_rebuild :: "FaceDatabase \<Rightarrow> FaceDatabase \<times> bool option" where
  "after_rebuild db =
     (case rebuild_feature_matrix db of (db', ok) \<Rightarrow> (db', if ok then Some True else None))"


definition remove_person :: "FaceDatabase \<Rightarrow> int \<Rightarrow> FaceDatabase \<times> bool option" where
  "remove_person db pid =
     (if map_of (persons db) pid = None then (db, Some False)
      else after_rebuild (db \<lparr> persons := AList.delete pid (persons db) \<rparr>))"

definition update_person_embeddings ::
  "FaceDatabase \<Rightarrow> int \<Rightarrow> embedding list \<Rightarrow> FaceDatabase \<times> bool option" where
  "update_person_embeddings db pid embeddings =
     (case map_of (persons db) pid of
        None \<Rightarrow> (db, Some False)
      | Some person \<Rightarrow>
          after_rebuild
            (db \<lparr> persons := AList.update pid (person \<lparr> pf_embeddings := embeddings \<rparr>)
                               (persons db) \<rparr>))"

definition clear_database :: "FaceDatabase \<Rightarrow> FaceDatabase" where
  "clear_database db =
     db \<lparr> persons := [], feature_matrix := None, feature_ids := [], total_embeddings := 0 \<rparr>"






text \<open>
  The state every operation of the class leaves behind when it returns: the matrix, the
  ids and the count are those a rebuild computes from the persons, and that rebuild does
  not raise.
\<close>

definition consistent :: "FaceDatabase \<Rightarrow> bool" where
  "consistent db = (rebuild_feature_matrix db = (db, True))"






section \<open>The tracker (app/engine/analyzers/tracker.py)\<close>

text \<open>
  The state kept for one tracked person. The stored frames (\<^verbatim>\<open>best_face_image\<close>,
  \<^verbatim>\<open>best_body_image\<close>) are pixel buffers and are not represented. The fields \<^verbatim>\<open>id\<close> and
  \<^verbatim>\<open>start_time\<close> are called \<open>tp_id\<close> and \<open>tp_start_time\<close>. Scores and times are reals.
\<close>

record TrackedPerson =
  tp_id :: int
  tp_start_time :: real
  last_seen_time :: real
  best_face_score :: real
  best_face_box :: "box option"
  best_body_score :: real
  best_body_box :: "box option"
  last_save_time :: real
  saved_face_score :: real
  is_stranger_body_reported :: bool

definition new_person :: "int \<Rightarrow> real \<Rightarrow> TrackedPerson" where
  "new_person tid t0 =
     \<lparr> tp_id = tid, tp_start_time = t0, last_seen_time = t0, best_face_score = 0,
       best_face_box = None, best_body_score = 0, best_body_box = None,
       last_save_time = 0, saved_face_score = 0, is_stranger_body_reported = False \<rparr>"

text \<open>
  \<^verbatim>\<open>update_body(frame, rect)\<close> with the frame's height and width: the score is the area ratio
  weighted by centrality, and the best box is replaced only by a strictly greater score.
\<close>

definition update_body :: "int \<Rightarrow> int \<Rightarrow> TrackedPerson \<Rightarrow> box \<Rightarrow> TrackedPerson" where
  "update_body h_img w_img p rect =
     (case rect of (x, y, w, h) \<Rightarrow>
        let cx = real_of_int x + real_of_int w / 2;
            cy = real_of_int y + real_of_int h / 2;
            img_cx = real_of_int w_img / 2;
            img_cy = real_of_int h_img / 2;
            dist = sqrt ((cx - img_cx)\<^sup>2 + (cy - img_cy)\<^sup>2);
            max_dist = sqrt (img_cx\<^sup>2 + img_cy\<^sup>2);
            centrality = 1 - dist / max_dist;
            area_ratio = real_of_int (w * h) / real_of_int (w_img * h_img);
            score = area_ratio * (centrality + 5 / 10) * 1000
        in if score > best_body_score p
           then p \<lparr> best_body_score := score, best_body_box := Some rect \<rparr>
           else p)"

definition update_face :: "TrackedPerson \<Rightarrow> box \<Rightarrow> real \<Rightarrow> TrackedPerson" where
  "update_face p rect conf =
     (let score = conf * 1000
      in if score > best_face_score p
         then p \<lparr> best_face_score := score, best_face_box := Some rect \<rparr>
         else p)"

text \<open>
  \<^verbatim>\<open>_should_save_face(person, current_score)\<close>: the decision and the person as the call
  leaves it. \<open>cooldown\<close> is \<^verbatim>\<open>settings.ALERT_COOLDOWN_SECONDS\<close> and \<open>now_ts\<close> the reading of
  \<^verbatim>\<open>time.time()\<close>.
\<close>

definition should_save_face :: "real \<Rightarrow> real \<Rightarrow> TrackedPerson \<Rightarrow> real \<Rightarrow> bool \<times> TrackedPerson" where
  "should_save_face cooldown now_ts person current_score =
     (let after_cooldown_check =
            (if current_score < 600 then (False, person)
             else if current_score > saved_face_score person * (105 / 100)
             then (True, person \<lparr> last_save_time := now_ts, saved_face_score := current_score \<rparr>)
             else (False, person))
      in if now_ts - last_save_time person < cooldown
         then (if current_score < saved_face_score person * (12 / 10) then (False, person)
               else after_cooldown_check)
         else after_cooldown_check)"

text \<open>
  \<^verbatim>\<open>_create_face_event\<close> and \<^verbatim>\<open>_create_body_event\<close>, with the frame's height and width and
  the reading of \<^verbatim>\<open>datetime.now()\<close>. Unpacking a box that is still \<^verbatim>\<open>None\<close> raises
  TypeError: the result \<open>None\<close>. The crops are the slices of the frame around the best
  boxes, padded and clipped to the frame.
\<close>

definition create_face_event :: "TrackedPerson \<Rightarrow> int \<Rightarrow> int \<Rightarrow> real \<Rightarrow> TrackerEvent option" where
  "create_face_event person h w event_time =
     (case best_face_box person of
        None \<Rightarrow> None
      | Some (fx, fy, fw, fh) \<Rightarrow>
          (case best_body_box person of
             None \<Rightarrow> None
           | Some (bx, by, bw, bh) \<Rightarrow>
               let pad = py_int (real_of_int fw * (3 / 10));
                   pad_b = py_int (real_of_int bw * (1 / 10))
               in Some \<lparr> ev_type = FACE_DETECTED,
                          ev_track_id = tp_id person,
                          ev_timestamp = event_time,
                          ev_face_image =
                            Some (crop h w (max 0 (fy - pad)) (min h (fy + fh + pad))
                                    (max 0 (fx - pad)) (min w (fx + fw + pad))),
                          ev_body_image =
                            Some (crop h w (max 0 (by - pad_b)) (min h (by + bh + pad_b))
                                    (max 0 (bx - pad_b)) (min w (bx + bw + pad_b))),
                          ev_full_image = Some (0, h, 0, w),
                          ev_face_score = best_face_score person,
                          ev_body_score = best_body_score person,
                          ev_face_box = best_face_box person,
                          ev_body_box = best_body_box person,
                          ev_is_best_shot = True,
                          ev_alert_level = CRITICAL \<rparr>))"

definition create_body_event :: "TrackedPerson \<Rightarrow> int \<Rightarrow> int \<Rightarrow> real \<Rightarrow> TrackerEvent option" where
  "create_body_event person h w event_time =
     (case best_body_box person of
        None \<Rightarrow> None
      | Some (bx, by, bw, bh) \<Rightarrow>
          let pad_b = py_int (real_of_int bw * (1 / 10))
          in Some \<lparr> ev_type = BODY_DETECTED,
                     ev_track_id = tp_id person,
                     ev_timestamp = event_time,
                     ev_face_image = None,
                     ev_body_image =
                       Some (crop h w (max 0 (by - pad_b)) (min h (by + bh + pad_b))
                               (max 0 (bx - pad_b)) (min w (bx + bw + pad_b))),
                     ev_full_image = Some (0, h, 0, w),
                     ev_face_score = 0,
                     ev_body_score = best_body_score person,
                     ev_face_box = None,
                     ev_body_box = best_body_box person,
                     ev_is_best_shot = False,
                     ev_alert_level = WARNING \<rparr>)"

text \<open>
  The tracker's state. The two dictionaries are association lists in insertion order. The
  detection models are not part of the state: what they return for a frame is the input
  \<open>frame_obs\<close> below.
\<close>

record YoloTracker =
  is_loaded :: bool
  tracked_persons :: "(int \<times> TrackedPerson) list"
  disappeared_count :: "(int \<times> int) list"
  max_disappeared :: int
  min_body_ratio :: real

definition new_tracker :: "bool \<Rightarrow> YoloTracker" where
  "new_tracker loaded =
     \<lparr> is_loaded = loaded, tracked_persons = [], disappeared_count = [],
       max_disappeared = 40, min_body_ratio = 5 / 100 \<rparr>"

text \<open>The two settings \<^verbatim>\<open>process\<close> reads.\<close>

record tracker_settings =
  ALERT_COOLDOWN_SECONDS :: int
  DETECTION_ROI :: "real list"

text \<open>
  What one call of \<^verbatim>\<open>process\<close> observes of a frame: its height and width; the tracked
  body boxes with their track ids (corner coordinates already converted to integers),
  \<open>None\<close> when the tracker reports no ids; the detected faces, each with its confidence and
  the reading of \<^verbatim>\<open>time.time()\<close> that \<^verbatim>\<open>_should_save_face\<close> would take for it; and the reading
  of \<^verbatim>\<open>datetime.now()\<close> stamped on the events of this frame.
\<close>

record frame_obs =
  h_img :: int
  w_img :: int
  tracks :: "(box \<times> int) list option"
  faces :: "(box \<times> real \<times> real) list"
  event_time :: real

text \<open>Step 1, the loop over the tracked boxes: the tracker and \<^verbatim>\<open>current_ids\<close>.\<close>

fun track_bodies ::
  "real \<Rightarrow> int \<Rightarrow> int \<Rightarrow> (box \<times> int) list \<Rightarrow> YoloTracker \<times> int list \<Rightarrow> YoloTracker \<times> int list" where
  "track_bodies timestamp h w [] acc = acc"
| "track_bodies timestamp h w (((x1, y1, x2, y2), tid) # rest) (t, current_ids) =
     (let bw = x2 - x1; bh = y2 - y1
      in if real_of_int bh < real_of_int h * min_body_ratio t
         then track_bodies timestamp h w rest (t, current_ids)
         else
           let person = (case map_of (tracked_persons t) tid of
                           None \<Rightarrow> new_person tid timestamp
                         | Some p \<Rightarrow> p);
               person2 = update_body h w (person \<lparr> last_seen_time := timestamp \<rparr>) (x1, y1, bw, bh);
               t2 = t \<lparr> tracked_persons := AList.update tid person2 (tracked_persons t),
                        disappeared_count := AList.update tid 0 (disappeared_count t) \<rparr>
           in track_bodies timestamp h w rest (t2, current_ids @ [tid]))"

text \<open>Step 2, the ids whose body centre lies in the region of interest.\<close>

definition in_roi :: "real list \<Rightarrow> int \<Rightarrow> int \<Rightarrow> box \<Rightarrow> bool" where
  "in_roi roi h w b =
     (case b of (bx1, by1, bx2, by2) \<Rightarrow>
        let roi_x1 = py_int (roi ! 0 * real_of_int w);
            roi_y1 = py_int (roi ! 1 * real_of_int h);
            roi_x2 = py_int (roi ! 2 * real_of_int w);
            roi_y2 = py_int (roi ! 3 * real_of_int h);
            center_x = real_of_int (bx1 + bx2) / 2;
            center_y = real_of_int (by1 + by2) / 2
        in real_of_int roi_x1 \<le> center_x \<and> center_x \<le> real_of_int roi_x2
           \<and> real_of_int roi_y1 \<le> center_y \<and> center_y \<le> real_of_int roi_y2)"

definition roi_person_ids ::
  "real list \<Rightarrow> int \<Rightarrow> int \<Rightarrow> (box \<times> int) list \<Rightarrow> int list \<Rightarrow> int list" where
  "roi_person_ids roi h w trs current_ids =
     (if current_ids = [] then []
      else if roi \<noteq> [] \<and> length roi = 4
      then map snd (filter (\<lambda>(b, tid). in_roi roi h w b) trs)
      else current_ids)"

text \<open>
  \<^verbatim>\<open>_match_face_to_body\<close>: the nearest body whose box, widened by a fifth, holds the face
  centre. The running minimum starts at infinity (\<open>None\<close>).
\<close>

fun match_face_to_body ::
  "real \<times> real \<Rightarrow> (box \<times> int) list \<Rightarrow> real option \<times> int option \<Rightarrow> int option" where
  "match_face_to_body face_center [] (min_dist, best_id) = best_id"
| "match_face_to_body face_center (((bx1, by1, bx2, by2), tid) # rest) (min_dist, best_id) =
     (let bw = real_of_int (bx2 - bx1); bh = real_of_int (by2 - by1);
          b_cx = real_of_int bx1 + bw / 2; b_cy = real_of_int by1 + bh / 2
      in if \<not> (real_of_int bx1 - bw * (2 / 10) \<le> fst face_center
                \<and> fst face_center \<le> real_of_int bx2 + bw * (2 / 10)
                \<and> real_of_int by1 - bh * (2 / 10) \<le> snd face_center
                \<and> snd face_center \<le> real_of_int by2 + bh * (2 / 10))
         then match_face_to_body face_center rest (min_dist, best_id)
         else
           let dist = (b_cx - fst face_center)\<^sup>2 + (b_cy - snd face_center)\<^sup>2
           in if (case min_dist of None \<Rightarrow> True | Some m \<Rightarrow> dist < m)
              then match_face_to_body face_center rest (Some dist, Some tid)
              else match_face_to_body face_center rest (min_dist, best_id))"

text \<open>
  Step 3, the body of the loop over the detected faces and the loop. A raised exception
  ends the call: the tracker as changed so far, and no events (\<open>None\<close>).
\<close>

definition face_step ::
  "real \<Rightarrow> int \<Rightarrow> int \<Rightarrow> real \<Rightarrow> (box \<times> int) list \<Rightarrow> int list \<Rightarrow> box \<times> real \<times> real
     \<Rightarrow> YoloTracker \<times> TrackerEvent list \<Rightarrow> YoloTracker \<times> TrackerEvent list option" where
  "face_step cooldown h w etime trs roi_ids face acc =
     (case (face, acc) of (((fx1, fy1, fx2, fy2), conf, now_ts), (t, events)) \<Rightarrow>
        let fw = fx2 - fx1; fh = fy2 - fy1;
            face_center = (real_of_int fx1 + real_of_int fw / 2,
                           real_of_int fy1 + real_of_int fh / 2)
        in case match_face_to_body face_center trs (None, None) of
             None \<Rightarrow> (t, Some events)
           | Some best_match_id \<Rightarrow>
               if best_match_id \<notin> set roi_ids then (t, Some events)
               else
                 (case map_of (tracked_persons t) best_match_id of
                    None \<Rightarrow> (t, None)
                  | Some person \<Rightarrow>
                      let person2 = update_face person (fx1, fy1, fw, fh) conf;
                          (save, person3) = should_save_face cooldown now_ts person2 (conf * 1000);
                          t3 = t \<lparr> tracked_persons :=
                                     AList.update best_match_id person3 (tracked_persons t) \<rparr>
                      in if save
                         then (case create_face_event person3 h w etime of
                                 None \<Rightarrow> (t3, None)
                               | Some ev \<Rightarrow> (t3, Some (events @ [ev])))
                         else (t3, Some events)))"

fun detect_faces ::
  "real \<Rightarrow> int \<Rightarrow> int \<Rightarrow> real \<Rightarrow> (box \<times> int) list \<Rightarrow> int list \<Rightarrow> (box \<times> real \<times> real) list
     \<Rightarrow> YoloTracker \<times> TrackerEvent list \<Rightarrow> YoloTracker \<times> TrackerEvent list option" where
  "detect_faces cooldown h w etime trs roi_ids [] (t, events) = (t, Some events)"
| "detect_faces cooldown h w etime trs roi_ids (face # rest) (t, events) =
     (case face_step cooldown h w etime trs roi_ids face (t, events) of
        (t2, None) \<Rightarrow> (t2, None)
      | (t2, Some events2) \<Rightarrow> detect_faces cooldown h w etime trs roi_ids rest (t2, events2))"

text \<open>Lines 206 to 214, the loitering check for each current id.\<close>

definition loiter_step ::
  "real \<Rightarrow> int \<Rightarrow> int \<Rightarrow> real \<Rightarrow> int \<Rightarrow> YoloTracker \<times> TrackerEvent list
     \<Rightarrow> YoloTracker \<times> TrackerEvent list option" where
  "loiter_step timestamp h w etime tid acc =
     (case acc of (t, events) \<Rightarrow>
        (case map_of (tracked_persons t) tid of
           None \<Rightarrow> (t, Some events)
         | Some person \<Rightarrow>
             let duration = timestamp - tp_start_time person
             in if best_face_score person < 300 \<and> duration > 1
                   \<and> \<not> is_stranger_body_reported person
                then (case create_body_event person h w etime of
                        None \<Rightarrow> (t, None)
                      | Some ev \<Rightarrow>
                          (t \<lparr> tracked_persons :=
                                 AList.update tid (person \<lparr> is_stranger_body_reported := True \<rparr>)
                                   (tracked_persons t) \<rparr>,
                           Some (events @ [ev])))
                else (t, Some events)))"

fun check_loitering ::
  "real \<Rightarrow> int \<Rightarrow> int \<Rightarrow> real \<Rightarrow> int list \<Rightarrow> YoloTracker \<times> TrackerEvent list
     \<Rightarrow> YoloTracker \<times> TrackerEvent list option" where
  "check_loitering timestamp h w etime [] (t, events) = (t, Some events)"
| "check_loitering timestamp h w etime (tid # rest) (t, events) =
     (case loiter_step timestamp h w etime tid (t, events) of
        (t2, None) \<Rightarrow> (t2, None)
      | (t2, Some events2) \<Rightarrow> check_loitering timestamp h w etime rest (t2, events2))"

text \<open>
  Step 4, departures: the loop over the keys the dictionary had when the loop began.
  The flag is false when \<^verbatim>\<open>disappeared_count[tid] += 1\<close> raised KeyError.
\<close>

definition departure_step :: "int list \<Rightarrow> int \<Rightarrow> YoloTracker \<Rightarrow> YoloTracker \<times> bool" where
  "departure_step active tid t =
     (if tid \<in> set active then (t, True)
      else
        (case map_of (disappeared_count t) tid of
           None \<Rightarrow> (t, False)
         | Some c \<Rightarrow>
             let t2 = t \<lparr> disappeared_count := AList.update tid (c + 1) (disappeared_count t) \<rparr>
             in if c + 1 > max_disappeared t
                then (t2 \<lparr> tracked_persons := AList.delete tid (tracked_persons t2),
                           disappeared_count := AList.delete tid (disappeared_count t2) \<rparr>,
                      True)
                else (t2, True)))"

fun check_departures :: "int list \<Rightarrow> int list \<Rightarrow> YoloTracker \<Rightarrow> YoloTracker \<times> bool" where
  "check_departures active [] t = (t, True)"
| "check_departures active (tid # rest) t =
     (case departure_step active tid t of
        (t2, False) \<Rightarrow> (t2, False)
      | (t2, True) \<Rightarrow> check_departures active rest t2)"

text \<open>\<^verbatim>\<open>process(frame, timestamp)\<close>: the tracker after the call and the events returned.\<close>

definition process ::
  "tracker_settings \<Rightarrow> YoloTracker \<Rightarrow> frame_obs option \<Rightarrow> real
     \<Rightarrow> YoloTracker \<times> TrackerEvent list option" where
  "process settings t frame timestamp =
     (case frame of
        None \<Rightarrow> (t, Some [])
      | Some obs \<Rightarrow>
          if \<not> is_loaded t then (t, Some [])
          else
            let trs = (case tracks obs of None \<Rightarrow> [] | Some l \<Rightarrow> l);
                (t1, current_ids) = track_bodies timestamp (h_img obs) (w_img obs) trs (t, []);
                roi_ids = roi_person_ids (DETECTION_ROI settings) (h_img obs) (w_img obs) trs
                            current_ids
            in case (if roi_ids \<noteq> []
                     then detect_faces (real_of_int (ALERT_COOLDOWN_SECONDS settings)) (h_img obs)
                            (w_img obs) (event_time obs) trs roi_ids (faces obs) (t1, [])
                     else (t1, Some [])) of
                 (t2, None) \<Rightarrow> (t2, None)
               | (t2, Some events) \<Rightarrow>
                   (case check_loitering timestamp (h_img obs) (w_img obs) (event_time obs)
                           current_ids (t2, events) of
                      (t3, None) \<Rightarrow> (t3, None)
                    | (t3, Some events2) \<Rightarrow>
                        (case check_departures current_ids (map fst (tracked_persons t3)) t3 of
                           (t4, ok) \<Rightarrow> (t4, if ok then Some events2 else None))))"

text \<open>
  The loitering events of one track among a list of events; a run of the tracker over
  successive frames, collecting the events each call returned (a call that raised
  returned none); and what it means for a track id to have an entry, to be flagged as
  reported, and never to be evicted during a run.
\<close>

definition body_events_for :: "int \<Rightarrow> TrackerEvent list \<Rightarrow> TrackerEvent list" where
  "body_events_for tid events =
     filter (\<lambda>e. ev_type e = BODY_DETECTED \<and> ev_track_id e = tid) events"

fun run_tracker ::
  "tracker_settings \<Rightarrow> YoloTracker \<Rightarrow> (frame_obs option \<times> real) list
     \<Rightarrow> YoloTracker \<times> TrackerEvent list" where
  "run_tracker settings t [] = (t, [])"
| "run_tracker settings t ((frame, timestamp) # rest) =
     (case process settings t frame timestamp of
        (t2, r) \<Rightarrow>
          (case run_tracker settings t2 rest of
             (t3, events) \<Rightarrow> (t3, (case r of None \<Rightarrow> [] | Some es \<Rightarrow> es) @ events)))"

definition tracked :: "YoloTracker \<Rightarrow> int \<Rightarrow> bool" where
  "tracked t tid = (map_of (tracked_persons t) tid \<noteq> None)"

definition flagged :: "YoloTracker \<Rightarrow> int \<Rightarrow> bool" where
  "flagged t tid =
     (case map_of (tracked_persons t) tid of
        None \<Rightarrow> False
      | Some p \<Rightarrow> is_stranger_body_reported p)"

fun never_evicted ::
  "tracker_settings \<Rightarrow> int \<Rightarrow> YoloTracker \<Rightarrow> (frame_obs option \<times> real) list \<Rightarrow> bool" where
  "never_evicted settings tid t [] = True"
| "never_evicted settings tid t ((frame, timestamp) # rest) =
     ((tracked t tid \<longrightarrow> tracked (fst (process settings t frame timestamp)) tid)
      \<and> never_evicted settings tid (fst (process settings t frame timestamp)) rest)"

text \<open>Every entry of \<^verbatim>\<open>tracked_persons\<close> is stored under its own id.\<close>

definition wf_tracker :: "YoloTracker \<Rightarrow> bool" where
  "wf_tracker t = list_all (\<lambda>(k, p). tp_id p = k) (tracked_persons t)"

text \<open>The part of an entry the loitering condition reads.\<close>

definition loiter_view :: "YoloTracker \<Rightarrow> int \<Rightarrow> (real \<times> real) option" where
  "loiter_view t tid =
     map_option (\<lambda>p. (best_face_score p, tp_start_time p)) (map_of (tracked_persons t) tid)"







section \<open>Example values\<close>

definition ex_rel :: "string \<Rightarrow> string" where
  "ex_rel sfx = ''captures/20260101/1/'' @ sfx @ ''/42_'' @ sfx @ ''.jpg''"

definition ex_face_event :: TrackerEvent where
  "ex_face_event = \<lparr> ev_type = FACE_DETECTED, ev_track_id = 42, ev_timestamp = 10,
     ev_face_image = Some (0, 10, 0, 10), ev_body_image = Some (0, 50, 0, 20),
     ev_full_image = Some (0, 100, 0, 100), ev_face_score = 900, ev_body_score = 50,
     ev_face_box = Some (2, 2, 6, 6), ev_body_box = Some (1, 1, 18, 48),
     ev_is_best_shot = True, ev_alert_level = CRITICAL \<rparr>"

definition ex_body_event :: TrackerEvent where
  "ex_body_event = \<lparr> ev_type = BODY_DETECTED, ev_track_id = 42, ev_timestamp = 5,
     ev_face_image = None, ev_body_image = Some (0, 50, 0, 20),
     ev_full_image = Some (0, 100, 0, 100), ev_face_score = 0, ev_body_score = 50,
     ev_face_box = None, ev_body_box = Some (1, 1, 18, 48),
     ev_is_best_shot = False, ev_alert_level = WARNING \<rparr>"

definition ex_known :: recognition where
  "ex_known = Some [[(95 / 100, ''alice'')]]"

definition ex_unknown :: recognition where
  "ex_unknown = Some [[(40 / 100, ''alice'')]]"

definition ex_stranger_row :: AlertLog where
  "ex_stranger_row =
     \<lparr> alert_id = 7, track_id = Some (py_str 42), camera_id = 1, alert_type = STRANGER,
       alert_level = CRITICAL, person_id = None, confidence = Some 700,
       face_image_path = Some ''/static/old_face.jpg'',
       best_body_image_path = Some ''/static/old_body.jpg'',
       full_image_path = Some ''/static/old_full.jpg'',
       image_history =
         Some [\<lparr> h_ts = 3, h_face = Some ''/static/old_face.jpg'', h_score = Some 700 \<rparr>],
       face_bbox = None, status = PENDING, is_reviewed = False, processed_by = None,
       processed_at = None, process_remark = None,
       extra_data = Some [''person_name'' \<mapsto> None],
       created_at = 3, start_time = Some 3, end_time = None \<rparr>"

text \<open>The alert data of a later, better face crop of the same stranger.\<close>

definition ex_old_row :: AlertLog where
  "ex_old_row = ex_stranger_row \<lparr> alert_id := 5, created_at := 1 \<rparr>"

definition ex_known_row :: AlertLog where
  "ex_known_row =
     ex_stranger_row \<lparr> alert_type := KNOWN, alert_level := INFO, status := IGNORED \<rparr>"

definition ex_stranger_data :: alert_data where
  "ex_stranger_data =
     \<lparr> d_track_id = Some (py_str 42), d_camera_id = 1, d_alert_type = STRANGER,
       d_alert_level = CRITICAL, d_person_id = None, d_person_name = None,
       d_face_image = Some ''/static/new_face.jpg'', d_body_image = Some ''/static/new_body.jpg'',
       d_full_image = Some ''/static/new_full.jpg'', d_timestamp = 20, d_score = Some 950,
       d_is_update = None, d_original_alert_id = None, d_id = None \<rparr>"

definition ex_cooldown :: AlertCooldownManager where
  "ex_cooldown = \<lparr> cooldown_seconds = 60, last_alert_time = [] \<rparr>"

definition ex_config :: CaptureConfig where
  "ex_config = \<lparr> rtsp_url = ''rtsp://camera/stream'', cap_camera_id = 1, username = None,
                 password = None, target_fps = 5, queue_size = 30, reconnect_interval = 1,
                 max_reconnect_interval = 60, reconnect_backoff = 2, connection_timeout = 10,
                 read_timeout = 5 \<rparr>"

definition ex_config_high :: CaptureConfig where
  "ex_config_high = ex_config \<lparr> reconnect_interval := 100 \<rparr>"






definition ex_settings :: tracker_settings where
  "ex_settings = \<lparr> ALERT_COOLDOWN_SECONDS = 60,
                   DETECTION_ROI = [15 / 100, 25 / 100, 85 / 100, 95 / 100] \<rparr>"

definition ex_obs :: frame_obs where
  "ex_obs = \<lparr> h_img = 100, w_img = 100, tracks = Some [((40, 20, 60, 80), 7)], faces = [],
              event_time = 0 \<rparr>"

definition ex_frames :: "(frame_obs option \<times> real) list" where
  "ex_frames = [(Some ex_obs, 0), (Some ex_obs, 2), (Some ex_obs, 3)]"











section \<open>Verified properties\<close>

subsection \<open>Helper facts: strings and the latest-row query\<close>

lemma str_nat_nonempty: "str_nat n \<noteq> []"
  by (subst str_nat.simps) simp

lemma py_str_nonempty: "py_str i \<noteq> []"
  by (simp add: py_str_def str_nat_nonempty)

lemma pick_latest_mem: "pick_latest db js = Some i \<Longrightarrow> i \<in> set js"
  by (induction js arbitrary: i) (auto split: option.splits if_splits)

lemma pick_latest_some: "js \<noteq> [] \<Longrightarrow> pick_latest db js \<noteq> None"
  by (cases js) (auto split: option.splits)

lemma pick_latest_max:
  "pick_latest db js = Some i \<Longrightarrow> \<forall>j \<in> set js. created_at (db ! j) \<le> created_at (db ! i)"
proof (induction js arbitrary: i)
  case Nil
  then show ?case by simp
next
  case (Cons a rest)
  show ?case
  proof (cases "pick_latest db rest")
    case None
    then have "rest = []" using pick_latest_some[of rest db] by auto
    with Cons.prems None show ?thesis by simp
  next
    case (Some b)
    have ih: "\<forall>k \<in> set rest. created_at (db ! k) \<le> created_at (db ! b)"
      using Cons.IH[OF Some] .
    show ?thesis
    proof (cases "created_at (db ! b) > created_at (db ! a)")
      case True
      with Cons.prems(1) Some have "i = b" by simp
      with ih True show ?thesis by auto
    next
      case False
      with Cons.prems(1) Some have "i = a" by simp
      with ih False show ?thesis by auto
    qed
  qed
qed

lemma pick_latest_first:
  "pick_latest db js = Some i \<Longrightarrow> js = pre @ i # post \<Longrightarrow> i \<notin> set pre \<Longrightarrow> k \<in> set pre
     \<Longrightarrow> created_at (db ! k) < created_at (db ! i)"
proof (induction js arbitrary: i pre)
  case Nil
  then show ?case by simp
next
  case (Cons a rest)
  from Cons.prems(2,4) obtain pre2 where pre: "pre = a # pre2" "rest = pre2 @ i # post"
    by (cases pre) auto
  from Cons.prems(3) pre have ne: "i \<noteq> a" "i \<notin> set pre2" by auto
  from Cons.prems(1) ne obtain b where b: "pick_latest db rest = Some b"
    by (auto split: option.splits if_splits)
  with Cons.prems(1) ne have ib: "i = b" and gt: "created_at (db ! b) > created_at (db ! a)"
    by (auto split: if_splits)
  show ?case
  proof (cases "k = a")
    case True
    with gt ib show ?thesis by simp
  next
    case False
    with Cons.prems(4) pre have "k \<in> set pre2" by simp
    from Cons.IH[OF b[folded ib] pre(2) ne(2) this] show ?thesis .
  qed
qed

lemma matching_rows_iff:
  "j \<in> set (matching_rows db t c)
     \<longleftrightarrow> j < length db \<and> track_id (db ! j) = Some t \<and> camera_id (db ! j) = c"
  by (auto simp: matching_rows_def)

lemma latest_alert_row:
  assumes "latest_alert db t c = Some i"
  shows "i < length db \<and> track_id (db ! i) = Some t \<and> camera_id (db ! i) = c"
  using pick_latest_mem[OF assms[unfolded latest_alert_def]]
  by (simp add: matching_rows_iff)

lemma latest_alert_recent:
  assumes "latest_alert db t c = Some i"
    and "j < length db" "track_id (db ! j) = Some t" "camera_id (db ! j) = c"
  shows "created_at (db ! j) \<le> created_at (db ! i)"
  using pick_latest_max[OF assms(1)[unfolded latest_alert_def]] assms(2-4)
  by (simp add: matching_rows_iff)

lemma latest_alert_exists:
  assumes "j < length db" "track_id (db ! j) = Some t" "camera_id (db ! j) = c"
  shows "\<exists>i. latest_alert db t c = Some i"
proof -
  have "j \<in> set (matching_rows db t c)" using assms by (simp add: matching_rows_iff)
  then have "matching_rows db t c \<noteq> []" by auto
  from pick_latest_some[OF this, of db] show ?thesis by (auto simp: latest_alert_def)
qed

lemma find_existing_row:
  assumes "find_existing db d = Some i"
  shows "i < length db"
  using assms latest_alert_row
  by (auto simp: find_existing_def split: option.splits if_splits)

subsection \<open>The alert lifecycle\<close>

lemma save_img_some:
  "save_img rel img sfx = Some (Some p) \<Longrightarrow> p = ''/static/'' @ rel sfx"
  "save_img rel (Some i) sfx = Some r \<Longrightarrow> r = Some (''/static/'' @ rel sfx) \<and> \<not> image_empty i"
  by (auto simp: save_img_def split: option.splits if_splits)

lemma handle_known:
  assumes "handle_analysis_event threshold rel cam ev resp = Some d" and "d_alert_type d = KNOWN"
  shows "d_track_id d = Some (py_str (ev_track_id ev)) \<and> d_camera_id d = cam
       \<and> d_alert_level d = INFO
       \<and> d_face_image d = Some (''/static/'' @ rel ''face'')
       \<and> (\<exists>img. ev_face_image ev = Some img \<and> \<not> image_empty img)
       \<and> ev_type ev = FACE_DETECTED"
proof -
  from assms obtain fp bp up name where
    sv: "save_event_images rel ev = Some (fp, bp, up)"
    and rc: "recognise_event threshold ev resp = Some (True, name)"
    and fi: "d_face_image d = fp"
    and rest: "d_track_id d = Some (py_str (ev_track_id ev))" "d_camera_id d = cam"
              "d_alert_level d = INFO"
    by (auto simp: handle_analysis_event_def Let_def split: option.splits prod.splits if_splits)
  from rc obtain img where img: "ev_face_image ev = Some img" and ty: "ev_type ev = FACE_DETECTED"
    by (auto simp: recognise_event_def split: if_splits)
  from sv img have "save_img rel (Some img) ''face'' = Some fp"
    by (auto simp: save_event_images_def split: option.splits)
  from save_img_some(2)[OF this] have "fp = Some (''/static/'' @ rel ''face'')" "\<not> image_empty img"
    by simp_all
  with fi rest img ty show ?thesis by simp
qed

lemma callback_known:
  assumes "find_existing db d = Some i" and "d_alert_type d = KNOWN"
  shows "engine_alert_callback now db d =
          (db[i := touch now (d \<lparr> d_is_update := Some True,
                                   d_original_alert_id := Some (alert_id (db ! i)) \<rparr>)
                     (fst (merge_existing (db ! i) d))],
           d \<lparr> d_is_update := Some True, d_original_alert_id := Some (alert_id (db ! i)),
               d_id := Some (alert_id (db ! i)) \<rparr>,
           [d \<lparr> d_is_update := Some True, d_original_alert_id := Some (alert_id (db ! i)),
                d_id := Some (alert_id (db ! i)) \<rparr>])"
  using assms by (simp add: engine_alert_callback_def merge_existing_def touch_def Let_def)

text \<open>
  Claim C1 (de-escalation). When some row exists for the camera and the event's track and
  the engine builds alert data of a known person from the event (its images were written
  and its match resolved to a known person), the row the callback updates is the most
  recent one of that camera and track: none of them has a later creation time. The
  engine and the callback leave that row with type KNOWN, level INFO and status
  PROCESSED, its stored face image replaced by the path of the event's face crop, every
  other row untouched, and exactly one message is pushed. This holds whatever the type of
  the row was before.
\<close>

theorem deescalation_known_person:
  assumes built: "handle_analysis_event threshold rel cam ev resp = Some d"
    and known: "d_alert_type d = KNOWN"
    and row: "j < length db" "track_id (db ! j) = Some (py_str (ev_track_id ev))"
             "camera_id (db ! j) = cam"
  shows "\<exists>i. latest_alert db (py_str (ev_track_id ev)) cam = Some i
           \<and> i < length db
           \<and> track_id (db ! i) = Some (py_str (ev_track_id ev)) \<and> camera_id (db ! i) = cam
           \<and> (\<forall>k < length db.
                 track_id (db ! k) = Some (py_str (ev_track_id ev)) \<and> camera_id (db ! k) = cam
                   \<longrightarrow> created_at (db ! k) \<le> created_at (db ! i))
           \<and> alert_type (fst (process_event threshold rel now cam db ev resp) ! i) = KNOWN
           \<and> alert_level (fst (process_event threshold rel now cam db ev resp) ! i) = INFO
           \<and> status (fst (process_event threshold rel now cam db ev resp) ! i) = PROCESSED
           \<and> face_image_path (fst (process_event threshold rel now cam db ev resp) ! i)
               = Some (''/static/'' @ rel ''face'')
           \<and> length (snd (process_event threshold rel now cam db ev resp)) = 1
           \<and> fst (process_event threshold rel now cam db ev resp)
               = db[i := fst (process_event threshold rel now cam db ev resp) ! i]"
proof -
  note d = handle_known[OF built known]
  from latest_alert_exists[OF row] obtain i where
    la: "latest_alert db (py_str (ev_track_id ev)) cam = Some i" by blast
  note ri = latest_alert_row[OF la]
  have rec: "\<forall>k < length db.
                 track_id (db ! k) = Some (py_str (ev_track_id ev)) \<and> camera_id (db ! k) = cam
                   \<longrightarrow> created_at (db ! k) \<le> created_at (db ! i)"
    using latest_alert_recent[OF la] by blast
  have fe: "find_existing db d = Some i"
    using d la by (simp add: find_existing_def py_str_nonempty)
  have upd: "alert_type (fst (process_event threshold rel now cam db ev resp) ! i) = KNOWN
           \<and> alert_level (fst (process_event threshold rel now cam db ev resp) ! i) = INFO
           \<and> status (fst (process_event threshold rel now cam db ev resp) ! i) = PROCESSED
           \<and> face_image_path (fst (process_event threshold rel now cam db ev resp) ! i)
               = Some (''/static/'' @ rel ''face'')
           \<and> length (snd (process_event threshold rel now cam db ev resp)) = 1
           \<and> fst (process_event threshold rel now cam db ev resp)
               = db[i := fst (process_event threshold rel now cam db ev resp) ! i]"
    using ri d known
    by (simp add: process_event_def built callback_known[OF fe known] merge_existing_def
        touch_def truthy_def)
  from la ri rec upd show ?thesis by blast
qed

lemma ex_known_data:
  "handle_analysis_event (88 / 100) ex_rel 1 ex_face_event ex_known =
     Some \<lparr> d_track_id = Some (py_str 42), d_camera_id = 1, d_alert_type = KNOWN,
            d_alert_level = INFO, d_person_id = None, d_person_name = Some ''alice'',
            d_face_image = Some (''/static/'' @ ex_rel ''face''),
            d_body_image = Some (''/static/'' @ ex_rel ''body''),
            d_full_image = Some (''/static/'' @ ex_rel ''full''),
            d_timestamp = 10, d_score = Some 900, d_is_update = None,
            d_original_alert_id = None, d_id = None \<rparr>"
  by (simp add: handle_analysis_event_def save_event_images_def save_img_def image_empty_def
      recognise_event_def ex_face_event_def ex_known_def Let_def)

theorem deescalation_witness:
  "latest_alert [ex_old_row, ex_stranger_row] (py_str 42) 1 = Some 1
   \<and> map (\<lambda>r. (alert_type r, alert_level r, status r))
         (fst (process_event (88 / 100) ex_rel 100 1 [ex_old_row, ex_stranger_row]
                 ex_face_event ex_known))
       = [(STRANGER, CRITICAL, PENDING), (KNOWN, INFO, PROCESSED)]
   \<and> face_image_path
         (fst (process_event (88 / 100) ex_rel 100 1 [ex_old_row, ex_stranger_row]
                 ex_face_event ex_known) ! 1)
       = Some (''/static/'' @ ex_rel ''face'')
   \<and> length (snd (process_event (88 / 100) ex_rel 100 1 [ex_old_row, ex_stranger_row]
                      ex_face_event ex_known)) = 1"
proof -
  let ?db = "[ex_old_row, ex_stranger_row]"
  let ?res = "process_event (88 / 100) ex_rel 100 1 ?db ex_face_event ex_known"
  have tid: "ev_track_id ex_face_event = 42" by (simp add: ex_face_event_def)
  have h2: "d_alert_type (the (handle_analysis_event (88 / 100) ex_rel 1 ex_face_event ex_known)) = KNOWN"
    unfolding ex_known_data by simp
  have h3: "(0::nat) < length ?db" by simp
  have h4: "track_id (?db ! 0) = Some (py_str (ev_track_id ex_face_event))"
    by (simp add: tid ex_old_row_def ex_stranger_row_def)
  have h5: "camera_id (?db ! 0) = 1" by (simp add: ex_old_row_def ex_stranger_row_def)
  have la: "latest_alert ?db (py_str 42) 1 = Some 1"
    by (simp add: latest_alert_def matching_rows_def ex_old_row_def ex_stranger_row_def upt_rec)
  from deescalation_known_person[OF ex_known_data h2[unfolded ex_known_data option.sel] h3 h4 h5, of 100]
  obtain i where i: "latest_alert ?db (py_str (ev_track_id ex_face_event)) 1 = Some i"
    "alert_type (fst ?res ! i) = KNOWN" "alert_level (fst ?res ! i) = INFO"
    "status (fst ?res ! i) = PROCESSED"
    "face_image_path (fst ?res ! i) = Some (''/static/'' @ ex_rel ''face'')"
    "length (snd ?res) = 1" "fst ?res = ?db[i := fst ?res ! i]"
    by blast
  from i(1) la tid have i1: "i = 1" by simp
  have rows: "fst ?res = [ex_old_row, fst ?res ! 1]" using i(7) i1 by simp
  have old: "(alert_type ex_old_row, alert_level ex_old_row, status ex_old_row)
              = (STRANGER, CRITICAL, PENDING)"
    by (simp add: ex_old_row_def ex_stranger_row_def)
  have "map (\<lambda>r. (alert_type r, alert_level r, status r)) (fst ?res)
        = [(STRANGER, CRITICAL, PENDING), (KNOWN, INFO, PROCESSED)]"
    by (subst rows) (use i(2,3,4) i1 old in simp)
  with la i(5,6) i1 show ?thesis by simp
qed

text \<open>
  The branch for ordinary updates. When a row exists for the data's camera and track, the
  data is not a known-person match and does not escalate the row (a row of level INFO
  with data of level CRITICAL), the callback pushes nothing; the row changes in its stored
  face and body image paths (each only when the data carries one), its end time and its
  image history, and in nothing else; every other row is untouched; the image history
  grows by exactly one entry.
\<close>

lemma silent_update:
  assumes existing: "find_existing db d = Some i"
    and not_known: "d_alert_type d \<noteq> KNOWN"
    and not_escalation: "\<not> (alert_level (db ! i) = INFO \<and> d_alert_level d = CRITICAL)"
  shows "engine_alert_callback now db d =
           (db[i := (db ! i)
                 \<lparr> face_image_path :=
                     (if truthy (d_face_image d) then d_face_image d else face_image_path (db ! i)),
                   best_body_image_path :=
                     (if truthy (d_body_image d) then d_body_image d
                      else best_body_image_path (db ! i)),
                   end_time := Some now,
                   image_history :=
                     Some ((case image_history (db ! i) of None \<Rightarrow> [] | Some h \<Rightarrow> h)
                           @ [history_item now d]) \<rparr>],
            d \<lparr> d_id := Some (alert_id (db ! i)) \<rparr>,
            [])
       \<and> length (the (image_history (fst (engine_alert_callback now db d) ! i)))
           = Suc (length (case image_history (db ! i) of None \<Rightarrow> [] | Some h \<Rightarrow> h))"
proof -
  have i: "i < length db" using find_existing_row[OF existing] .
  have m: "merge_existing (db ! i) d =
      ((db ! i) \<lparr> face_image_path :=
                     (if truthy (d_face_image d) then d_face_image d else face_image_path (db ! i)),
                   best_body_image_path :=
                     (if truthy (d_body_image d) then d_body_image d
                      else best_body_image_path (db ! i)) \<rparr>, d, False)"
    using not_known not_escalation by (auto simp: merge_existing_def)
  have c: "engine_alert_callback now db d =
           (db[i := (db ! i)
                 \<lparr> face_image_path :=
                     (if truthy (d_face_image d) then d_face_image d else face_image_path (db ! i)),
                   best_body_image_path :=
                     (if truthy (d_body_image d) then d_body_image d
                      else best_body_image_path (db ! i)),
                   end_time := Some now,
                   image_history :=
                     Some ((case image_history (db ! i) of None \<Rightarrow> [] | Some h \<Rightarrow> h)
                           @ [history_item now d]) \<rparr>],
            d \<lparr> d_id := Some (alert_id (db ! i)) \<rparr>,
            [])"
    by (simp add: engine_alert_callback_def existing m touch_def Let_def)
  show ?thesis
    using i by (simp add: c)
qed

lemma silent_update_example:
  "snd (snd (engine_alert_callback 100 [ex_stranger_row] ex_stranger_data)) = []
   \<and> length (the (image_history (fst (engine_alert_callback 100 [ex_stranger_row] ex_stranger_data) ! 0))) = 2
   \<and> face_image_path (fst (engine_alert_callback 100 [ex_stranger_row] ex_stranger_data) ! 0)
        = Some ''/static/new_face.jpg''
   \<and> status (fst (engine_alert_callback 100 [ex_stranger_row] ex_stranger_data) ! 0) = PENDING
   \<and> alert_level (fst (engine_alert_callback 100 [ex_stranger_row] ex_stranger_data) ! 0) = CRITICAL"
proof -
  have h1: "find_existing [ex_stranger_row] ex_stranger_data = Some 0"
    by (simp add: find_existing_def latest_alert_def matching_rows_def ex_stranger_row_def
        ex_stranger_data_def py_str_nonempty)
  have h2: "d_alert_type ex_stranger_data \<noteq> KNOWN"
    by (simp add: ex_stranger_data_def)
  have h3: "\<not> (alert_level ([ex_stranger_row] ! 0) = INFO \<and> d_alert_level ex_stranger_data = CRITICAL)"
    by (simp add: ex_stranger_row_def)
  show ?thesis
    using silent_update[OF h1 h2 h3, of 100]
    by (simp add: ex_stranger_row_def ex_stranger_data_def truthy_def)
qed


text \<open>
  Claim C7 (silent update). The specification says that an event of the type and level
  the existing row already has only refreshes the stored images, end time and image
  history and is not notified. The known-person branch of the code, which its comment
  reserves for a row that was a stranger before, tests only the event: a known-person
  event on a row that is already KNOWN and INFO pushes one message and rewrites the
  status, here from IGNORED to PROCESSED.
\<close>

theorem known_event_on_known_row_not_silent:
  "alert_type ex_known_row = KNOWN \<and> alert_level ex_known_row = INFO
   \<and> status ex_known_row = IGNORED
   \<and> map_option (\<lambda>d. (d_alert_type d, d_alert_level d))
        (handle_analysis_event (88 / 100) ex_rel 1 ex_face_event ex_known) = Some (KNOWN, INFO)
   \<and> length (snd (process_event (88 / 100) ex_rel 100 1 [ex_known_row] ex_face_event ex_known)) = 1
   \<and> map (\<lambda>r. (alert_type r, alert_level r, status r))
        (fst (process_event (88 / 100) ex_rel 100 1 [ex_known_row] ex_face_event ex_known))
       = [(KNOWN, INFO, PROCESSED)]"
  unfolding process_event_def ex_known_data
  by (simp add: engine_alert_callback_def find_existing_def
      latest_alert_def matching_rows_def ex_known_row_def ex_stranger_row_def py_str_nonempty
      merge_existing_def touch_def Let_def)

text \<open>
  Every row the callback creates has status PENDING, whatever the type of the alert: the
  constructor call passes no status and the column default applies.
\<close>

lemma created_row:
  assumes "find_existing db d = None"
  shows "fst (engine_alert_callback now db d) = db @ [new_alert now db d]
       \<and> status (new_alert now db d) = PENDING
       \<and> alert_type (new_alert now db d) = d_alert_type d
       \<and> length (snd (snd (engine_alert_callback now db d))) = 1"
  using assms by (simp add: engine_alert_callback_def new_alert_def Let_def)

text \<open>
  Claim C3 (status of a created row). The specification says that a row created from an
  event that resolved to a known person is created with status PROCESSED. The code creates it with
  status PENDING: on an empty table, a face event recognised as a known person yields one
  row of type KNOWN, level INFO and status PENDING.
\<close>

theorem known_person_creation_is_pending:
  "map (\<lambda>r. (alert_type r, alert_level r, status r))
       (fst (process_event (88 / 100) ex_rel 100 1 [] ex_face_event ex_known))
     = [(KNOWN, INFO, PENDING)]"
  by (simp add: process_event_def handle_analysis_event_def recognise_event_def
      ex_face_event_def ex_known_def engine_alert_callback_def find_existing_def
      latest_alert_def matching_rows_def new_alert_def save_img_def save_event_images_def image_empty_def Let_def)

text \<open>
  A body-only event always yields alert data of level WARNING, and a row of level WARNING
  is never escalated: an event that is not a known person leaves its level at WARNING and
  pushes nothing.
\<close>

lemma handle_body_event:
  assumes "ev_type ev = BODY_DETECTED"
    and "handle_analysis_event threshold rel cam ev resp = Some d"
  shows "d_alert_level d = WARNING \<and> d_alert_type d = STRANGER"
  using assms
  by (auto simp: handle_analysis_event_def recognise_event_def Let_def
      split: option.splits prod.splits)

lemma warning_row_not_escalated:
  assumes "find_existing db d = Some i" and "alert_level (db ! i) = WARNING"
    and "d_alert_type d \<noteq> KNOWN"
  shows "alert_level (fst (engine_alert_callback now db d) ! i) = WARNING
       \<and> snd (snd (engine_alert_callback now db d)) = []"
proof -
  have i: "i < length db" using find_existing_row[OF assms(1)] .
  show ?thesis using assms i
    by (simp add: engine_alert_callback_def merge_existing_def touch_def Let_def)
qed

text \<open>
  Claim C2 (escalation). The specification says that a row created by a body-only
  loitering event is escalated by a later face-confirmed critical event: level CRITICAL, type STRANGER,
  status PENDING, one notification. In the code the body-only event creates a row of
  level WARNING, the escalation branch asks for level INFO, and the later critical face
  event of an unrecognised person takes the silent branch: the level stays WARNING and
  nothing is pushed.
\<close>

theorem body_then_face_not_escalated:
  "map (\<lambda>r. (alert_type r, alert_level r, status r))
       (fst (process_event (88 / 100) ex_rel 5 1 [] ex_body_event None))
     = [(STRANGER, WARNING, PENDING)]
   \<and> map (\<lambda>r. (alert_type r, alert_level r, status r))
       (fst (process_event (88 / 100) ex_rel 100 1
               (fst (process_event (88 / 100) ex_rel 5 1 [] ex_body_event None))
               ex_face_event ex_unknown))
     = [(STRANGER, WARNING, PENDING)]
   \<and> snd (process_event (88 / 100) ex_rel 100 1
               (fst (process_event (88 / 100) ex_rel 5 1 [] ex_body_event None))
               ex_face_event ex_unknown) = []"
proof -
  have b: "fst (process_event (88 / 100) ex_rel 5 1 [] ex_body_event None)
         = [new_alert 5 [] (the (handle_analysis_event (88 / 100) ex_rel 1 ex_body_event None))]"
    by (simp add: process_event_def handle_analysis_event_def recognise_event_def
        ex_body_event_def engine_alert_callback_def find_existing_def
        latest_alert_def matching_rows_def save_img_def save_event_images_def
        image_empty_def Let_def)
  show ?thesis
    unfolding b
    by (simp add: process_event_def handle_analysis_event_def recognise_event_def
      ex_face_event_def ex_body_event_def ex_unknown_def engine_alert_callback_def find_existing_def
      latest_alert_def matching_rows_def new_alert_def save_img_def save_event_images_def image_empty_def Let_def py_str_nonempty
      merge_existing_def touch_def)
qed

subsection \<open>The alert cooldown manager\<close>

lemma of_char_digit: "d < 10 \<Longrightarrow> (of_char (digit_char d) :: nat) = 48 + d"
  by (simp add: digit_char_def)

lemma nat_of_digits_str_nat: "nat_of_digits (str_nat n) = n"
proof (induction n rule: str_nat.induct)
  case (1 n)
  show ?case
  proof (cases "n < 10")
    case True
    then show ?thesis
      by (subst str_nat.simps) (simp add: nat_of_digits_def of_char_digit)
  next
    case False
    with 1 have ih: "nat_of_digits (str_nat (n div 10)) = n div 10" by simp
    have "str_nat n = str_nat (n div 10) @ [digit_char (n mod 10)]"
      using False by (subst str_nat.simps) simp
    then have "nat_of_digits (str_nat n) = 10 * nat_of_digits (str_nat (n div 10)) + n mod 10"
      by (simp add: nat_of_digits_def of_char_digit)
    with ih show ?thesis by simp
  qed
qed

lemma str_nat_inj: "str_nat m = str_nat n \<Longrightarrow> m = n"
  by (metis nat_of_digits_str_nat)

lemma str_nat_digits:
  "c \<in> set (str_nat n) \<Longrightarrow> 48 \<le> (of_char c :: nat) \<and> (of_char c :: nat) < 58"
proof (induction n rule: str_nat.induct)
  case (1 n)
  show ?case
  proof (cases "n < 10")
    case True
    with 1(2) show ?thesis
      by (subst (asm) str_nat.simps) (simp add: of_char_digit)
  next
    case False
    with 1 show ?thesis
      by (subst (asm) (2) str_nat.simps) (auto simp: of_char_digit)
  qed
qed

lemma str_nat_not_minus: "str_nat m \<noteq> CHR ''-'' # s"
proof
  assume "str_nat m = CHR ''-'' # s"
  then have "CHR ''-'' \<in> set (str_nat m)" by simp
  from str_nat_digits[OF this] show False by simp
qed

lemma py_str_inj: "py_str i = py_str j \<Longrightarrow> i = j"
proof -
  assume eq: "py_str i = py_str j"
  consider "i < 0" "j < 0" | "i < 0" "\<not> j < 0" | "\<not> i < 0" "j < 0" | "\<not> i < 0" "\<not> j < 0"
    by blast
  then show ?thesis
  proof cases
    case 1
    with eq have "str_nat (nat (- i)) = str_nat (nat (- j))" by (simp add: py_str_def)
    then have "nat (- i) = nat (- j)" by (rule str_nat_inj)
    with 1 show ?thesis by simp
  next
    case 2
    with eq have "str_nat (nat j) = CHR ''-'' # str_nat (nat (- i))" by (simp add: py_str_def)
    then show ?thesis using str_nat_not_minus by blast
  next
    case 3
    with eq have "str_nat (nat i) = CHR ''-'' # str_nat (nat (- j))" by (simp add: py_str_def)
    then show ?thesis using str_nat_not_minus by blast
  next
    case 4
    with eq have "str_nat (nat i) = str_nat (nat j)" by (simp add: py_str_def)
    then have "nat i = nat j" by (rule str_nat_inj)
    with 4 show ?thesis by simp
  qed
qed

lemma py_str_not_stranger: "py_str p \<noteq> ''stranger''"
proof
  assume eq: "py_str p = ''stranger''"
  show False
  proof (cases "p < 0")
    case True
    with eq show False by (simp add: py_str_def)
  next
    case False
    with eq have "str_nat (nat p) = ''stranger''" by (simp add: py_str_def)
    then have "CHR ''s'' \<in> set (str_nat (nat p))" by simp
    from str_nat_digits[OF this] show False by simp
  qed
qed

lemma subject_key_inj:
  assumes "p \<noteq> 0" "q \<noteq> 0" "p \<noteq> q"
  shows "subject_key (Some p) \<noteq> subject_key (Some q)"
  using assms py_str_inj by (auto simp: subject_key_def)

lemma subject_key_nonzero_not_stranger:
  assumes "p \<noteq> 0"
  shows "subject_key (Some p) \<noteq> ''stranger''"
  using assms py_str_not_stranger by (simp add: subject_key_def)

lemma can_alert_after_record:
  "can_alert (record_alert m t cam pid) t2 cam2 pid2 =
     (if (cam, subject_key pid) = (cam2, subject_key pid2)
      then \<not> (t2 - t < cooldown_seconds m)
      else can_alert m t2 cam2 pid2)"
  by (simp add: can_alert_def record_alert_def update_conv' Let_def)

text \<open>
  Claim C10 (subject-key collision). \<^verbatim>\<open>can_alert\<close> and \<^verbatim>\<open>record_alert\<close> give the person
  ids \<^verbatim>\<open>None\<close> and 0 the same subject key, the string "stranger". So an alert
  recorded on a camera for the person with id 0 suppresses stranger alerts on that camera
  while less than the cooldown has elapsed, and the other way round. Recording an alert
  for a nonzero person id changes neither the answer for a different nonzero person id nor
  the answer for strangers, at any time and on any camera.
\<close>

theorem cooldown_subject_key_collision:
  assumes within: "now2 - now1 < cooldown_seconds m"
    and distinct_ids: "p \<noteq> 0" "q \<noteq> 0" "p \<noteq> q"
  shows "subject_key None = ''stranger'' \<and> subject_key (Some 0) = ''stranger''
       \<and> \<not> can_alert (record_alert m now1 cam (Some 0)) now2 cam None
       \<and> \<not> can_alert (record_alert m now1 cam None) now2 cam (Some 0)
       \<and> can_alert (record_alert m now1 cam (Some p)) t cam2 (Some q) = can_alert m t cam2 (Some q)
       \<and> can_alert (record_alert m now1 cam (Some p)) t cam2 None = can_alert m t cam2 None"
proof -
  have k: "subject_key None = ''stranger''" "subject_key (Some 0) = ''stranger''"
    by (simp_all add: subject_key_def)
  have s1: "\<not> can_alert (record_alert m now1 cam (Some 0)) now2 cam None"
    using within by (simp add: can_alert_after_record k)
  have s2: "\<not> can_alert (record_alert m now1 cam None) now2 cam (Some 0)"
    using within by (simp add: can_alert_after_record k)
  have i1: "can_alert (record_alert m now1 cam (Some p)) t cam2 (Some q) = can_alert m t cam2 (Some q)"
    using subject_key_inj[OF distinct_ids] by (simp add: can_alert_after_record)
  have i2: "can_alert (record_alert m now1 cam (Some p)) t cam2 None = can_alert m t cam2 None"
    using subject_key_nonzero_not_stranger[OF distinct_ids(1)] by (simp add: can_alert_after_record k)
  from k s1 s2 i1 i2 show ?thesis by simp
qed

theorem cooldown_subject_key_collision_witness:
  "\<not> can_alert (record_alert ex_cooldown 1000 1 (Some 0)) 1030 1 None
   \<and> \<not> can_alert (record_alert ex_cooldown 1000 1 None) 1030 1 (Some 0)
   \<and> can_alert (record_alert ex_cooldown 1000 1 (Some 5)) 1030 1 (Some 6)
   \<and> can_alert (record_alert ex_cooldown 1000 1 (Some 5)) 1030 1 None"
proof -
  have h1: "(1030::real) - 1000 < cooldown_seconds ex_cooldown" by (simp add: ex_cooldown_def)
  have h2: "(5::int) \<noteq> 0" "(6::int) \<noteq> 0" "(5::int) \<noteq> 6" by simp_all
  have base: "can_alert ex_cooldown 1030 1 (Some 6)" "can_alert ex_cooldown 1030 1 None"
    by (simp_all add: can_alert_def ex_cooldown_def)
  show ?thesis
    using cooldown_subject_key_collision[OF h1 h2, of 1 1030 1] base by simp
qed

subsection \<open>The frame queue\<close>

lemma enqueue_frame_bounded:
  assumes "0 < maxsize q" and "int (length (items q)) \<le> maxsize q"
  shows "enqueue_frame q x =
           Inr (q \<lparr> items := (if int (length (items q)) < maxsize q then items q
                               else tl (items q)) @ [x] \<rparr>)"
proof (cases "items q")
  case Nil
  with assms show ?thesis
    by (simp add: enqueue_frame_def put_nowait_def full_def)
next
  case (Cons y ys)
  with assms show ?thesis
    by (auto simp: enqueue_frame_def put_nowait_def get_nowait_def full_def)
qed

lemma enqueue_all_bounded:
  assumes "0 < maxsize q" and "int (length (items q)) \<le> maxsize q"
  shows "enqueue_all q xs =
           Inr (q \<lparr> items := drop (length (items q @ xs) - nat (maxsize q)) (items q @ xs) \<rparr>)"
  using assms
proof (induction xs arbitrary: q)
  case Nil
  then show ?case by simp
next
  case (Cons x xs)
  let ?q1 = "q \<lparr> items := (if int (length (items q)) < maxsize q then items q
                               else tl (items q)) @ [x] \<rparr>"
  have step: "enqueue_frame q x = Inr ?q1"
    using Cons.prems by (rule enqueue_frame_bounded)
  have b: "0 < maxsize ?q1" "int (length (items ?q1)) \<le> maxsize ?q1"
    using Cons.prems by auto
  have "enqueue_all q (x # xs) = enqueue_all ?q1 xs"
    by (simp add: step)
  also have "\<dots> = Inr (?q1 \<lparr> items := drop (length (items ?q1 @ xs) - nat (maxsize ?q1)) (items ?q1 @ xs) \<rparr>)"
    using Cons.IH[OF b] .
  also have "\<dots> = Inr (q \<lparr> items := drop (length (items q @ x # xs) - nat (maxsize q)) (items q @ x # xs) \<rparr>)"
  proof (cases "int (length (items q)) < maxsize q")
    case True
    then show ?thesis by simp
  next
    case False
    with Cons.prems have len: "length (items q) = nat (maxsize q)" by simp
    then obtain y ys where ys: "items q = y # ys"
      using Cons.prems(1) by (cases "items q") auto
    with len False show ?thesis by (simp add: Suc_diff_le)
  qed
  finally show ?case .
qed

text \<open>
  Claim C5 (drop-oldest), amended. For a queue capacity \<open>c\<close> of at least 1, enqueuing
  \<open>c + 1\<close> frames into the empty queue with no consumer leaves exactly \<open>c\<close> frames: all
  but the first, that is the \<open>c\<close> most recent ones.
\<close>

theorem drop_oldest:
  assumes "0 < c" and "length frames = Suc c"
  shows "enqueue_all (new_queue (int c)) frames = Inr \<lparr> maxsize = int c, items = tl frames \<rparr>
       \<and> length (tl frames) = c
       \<and> tl frames = drop (length frames - c) frames"
proof -
  have q: "0 < maxsize (new_queue (int c) :: 'a frame_queue)"
          "int (length (items (new_queue (int c) :: 'a frame_queue))) \<le> maxsize (new_queue (int c) :: 'a frame_queue)"
    using assms by (simp_all add: new_queue_def)
  have d: "drop (length frames - c) frames = tl frames"
    using assms by (simp add: drop_Suc)
  show ?thesis
    using enqueue_all_bounded[OF q, of frames] assms d by (simp add: new_queue_def)
qed

theorem drop_oldest_witness:
  "enqueue_all (new_queue 3) [10, 11, 12, 13 :: nat] = Inr \<lparr> maxsize = 3, items = [11, 12, 13] \<rparr>"
proof -
  have h1: "0 < (3::nat)" by simp
  have h2: "length [10, 11, 12, 13 :: nat] = Suc 3" by simp
  show ?thesis using drop_oldest[OF h1 h2] by simp
qed

text \<open>
  The statement for every capacity fails for capacity 0, where Python's queue
  is unbounded. After 0 + 1 enqueues the queue holds one frame, not zero.
\<close>

theorem unbounded_queue_counterexample:
  "enqueue_all (new_queue (int 0)) [10 :: nat] = Inr \<lparr> maxsize = int 0, items = [10] \<rparr>
   \<and> enqueue_all (new_queue (int 0)) [10 :: nat] \<noteq> Inr \<lparr> maxsize = int 0, items = tl [10] \<rparr>"
  by (simp add: new_queue_def enqueue_frame_def put_nowait_def full_def)

subsection \<open>Reconnection backoff\<close>

lemma loop_waits_bounded:
  "w \<in> set (fst (snd (reconnect_loop cfg interval cnt env)))
     \<Longrightarrow> w \<le> max interval (max_reconnect_interval cfg)"
proof (induction cfg interval cnt env rule: reconnect_loop.induct)
  case (5 cfg interval cnt env)
  let ?next = "min (interval * reconnect_backoff cfg) (max_reconnect_interval cfg)"
  from "5.prems" have "w = interval \<or> w \<in> set (fst (snd (reconnect_loop cfg ?next (Suc cnt) env)))"
    by (auto split: prod.splits)
  then show ?case
  proof
    assume "w = interval" then show ?thesis by simp
  next
    assume "w \<in> set (fst (snd (reconnect_loop cfg ?next (Suc cnt) env)))"
    from "5.IH"[OF this] show ?thesis by (simp add: max_def min_def split: if_splits)
  qed
qed simp_all

lemma loop_waits_lower:
  "w \<in> set (fst (snd (reconnect_loop cfg interval cnt env))) \<Longrightarrow> 1 \<le> reconnect_backoff cfg
     \<Longrightarrow> 0 \<le> interval \<Longrightarrow> interval \<le> max_reconnect_interval cfg \<Longrightarrow> interval \<le> w"
proof (induction cfg interval cnt env rule: reconnect_loop.induct)
  case (5 cfg interval cnt env)
  let ?next = "min (interval * reconnect_backoff cfg) (max_reconnect_interval cfg)"
  have m: "interval \<le> interval * reconnect_backoff cfg"
    using "5.prems"(2,3) by (simp add: mult_le_cancel_left1)
  then have nx: "interval \<le> ?next" "0 \<le> ?next" "?next \<le> max_reconnect_interval cfg"
    using "5.prems" by simp_all
  from "5.prems"(1) have "w = interval \<or> w \<in> set (fst (snd (reconnect_loop cfg ?next (Suc cnt) env)))"
    by (auto split: prod.splits)
  then show ?case
  proof
    assume "w = interval" then show ?thesis by simp
  next
    assume "w \<in> set (fst (snd (reconnect_loop cfg ?next (Suc cnt) env)))"
    from "5.IH"[OF this "5.prems"(2) nx(2,3)] have "?next \<le> w" .
    with nx(1) show ?thesis by (rule order_trans)
  qed
qed simp_all

lemma loop_waits_sorted:
  "1 \<le> reconnect_backoff cfg \<Longrightarrow> 0 \<le> interval \<Longrightarrow> interval \<le> max_reconnect_interval cfg
     \<Longrightarrow> sorted (fst (snd (reconnect_loop cfg interval cnt env)))"
proof (induction cfg interval cnt env rule: reconnect_loop.induct)
  case (5 cfg interval cnt env)
  let ?next = "min (interval * reconnect_backoff cfg) (max_reconnect_interval cfg)"
  have m: "interval \<le> interval * reconnect_backoff cfg"
    using "5.prems"(1,2) by (simp add: mult_le_cancel_left1)
  then have nx: "interval \<le> ?next" "0 \<le> ?next" "?next \<le> max_reconnect_interval cfg"
    using "5.prems" by simp_all
  have s: "sorted (fst (snd (reconnect_loop cfg ?next (Suc cnt) env)))"
    using "5.IH"[OF "5.prems"(1) nx(2,3)] .
  have "\<forall>w \<in> set (fst (snd (reconnect_loop cfg ?next (Suc cnt) env))). interval \<le> w"
    using loop_waits_lower[OF _ "5.prems"(1) nx(2,3)] nx(1) by force
  with s show ?case by (auto split: prod.splits)
qed simp_all

lemma real_grow: "(1::real) \<le> p \<Longrightarrow> 0 \<le> x \<Longrightarrow> x \<le> x * p"
  by (simp add: mult_le_cancel_left1)

lemma ex_loop_waits:
  "interval \<le> 60 \<Longrightarrow>
   fst (snd (reconnect_loop ex_config interval cnt (replicate n FailedWaited)))
     = map (\<lambda>k. min (interval * 2 ^ k) 60) [0..<n]"
proof (induction n arbitrary: interval cnt)
  case 0
  then show ?case by simp
next
  case (Suc n)
  have cfg: "reconnect_backoff ex_config = 2" "max_reconnect_interval ex_config = 60"
    by (simp_all add: ex_config_def)
  have "fst (snd (reconnect_loop ex_config interval cnt (replicate (Suc n) FailedWaited)))
        = interval # fst (snd (reconnect_loop ex_config (min (interval * 2) 60) (Suc cnt) (replicate n FailedWaited)))"
    by (simp add: cfg split: prod.splits)
  also have "\<dots> = interval # map (\<lambda>k. min (min (interval * 2) 60 * 2 ^ k) 60) [0..<n]"
    using Suc.IH[of "min (interval * 2) 60" "Suc cnt"] by simp
  also have "\<dots> = map (\<lambda>k. min (interval * 2 ^ k) 60) [0..<Suc n]"
  proof -
    have a: "min (min (interval * 2) 60 * 2 ^ k) 60 = min (interval * 2 ^ Suc k) 60" for k :: nat
    proof (cases "interval * 2 \<le> 60")
      case True
      then show ?thesis by (simp add: min_def mult.assoc)
    next
      case False
      have p: "(1::real) \<le> 2 ^ k" by simp
      have "(60::real) * 1 \<le> 60 * 2 ^ k" using p by (intro mult_left_mono) simp_all
      then have "(60::real) \<le> 60 * 2 ^ k" by simp
      moreover have "min (interval * 2) 60 = 60" using False by (simp add: min_def)
      ultimately have l: "min (min (interval * 2) 60 * 2 ^ k) 60 = 60"
        by (simp only: min_absorb2)
      have x: "60 < interval * 2" using False by simp
      have g: "interval * 2 \<le> interval * 2 * 2 ^ k"
        by (rule real_grow) (use p x in simp_all)
      have e: "interval * 2 ^ Suc k = interval * 2 * 2 ^ k" by simp
      have "60 < interval * 2 * 2 ^ k" using g x by linarith
      then have "60 < interval * 2 ^ Suc k" by (simp only: e)
      then have "min (interval * 2 ^ Suc k) 60 = 60" by (intro min_absorb2 less_imp_le)
      with l show ?thesis by simp
    qed
    have "map (\<lambda>k. min (interval * 2 ^ k) 60) [0..<Suc n]
          = min (interval * 2 ^ 0) 60 # map (\<lambda>k. min (interval * 2 ^ Suc k) 60) [0..<n]"
      by (simp only: upt_conv_Cons[OF zero_less_Suc] list.map map_Suc_upt[symmetric] map_map o_def)
    then show ?thesis using Suc.prems by (simp add: a)
  qed
  finally show ?case .
qed

text \<open>
  Claim C6 (reconnection backoff), amended. With a backoff multiplier of at least 1 and
  an initial interval between 0 and the maximum interval, the waits of a reconnection run
  are non-decreasing and each is at most the maximum interval. For every configuration,
  each wait is at most the larger of the initial and the maximum interval. With initial
  interval 1, multiplier 2 and maximum 60 the \<open>k\<close>-th wait is the smaller of \<open>2 ^ k\<close> and
  60: 1, 2, 4, 8, 16, 32, 60, 60, 60 and so on.
\<close>

theorem reconnect_backoff_waits:
  assumes "1 \<le> reconnect_backoff cfg" and "0 \<le> reconnect_interval cfg"
    and "reconnect_interval cfg \<le> max_reconnect_interval cfg"
  shows "sorted (waits cfg env)
       \<and> (\<forall>w \<in> set (waits cfg env). w \<le> max_reconnect_interval cfg)
       \<and> (\<forall>w \<in> set (waits cfg2 env). w \<le> max (reconnect_interval cfg2) (max_reconnect_interval cfg2))
       \<and> waits ex_config (replicate n FailedWaited) = map (\<lambda>k. min (2 ^ k) 60) [0..<n]"
proof -
  have s: "sorted (waits cfg env)"
    unfolding waits_def reconnect_def using assms by (rule loop_waits_sorted)
  have b2: "\<forall>w \<in> set (waits cfg2 env). w \<le> max (reconnect_interval cfg2) (max_reconnect_interval cfg2)"
    unfolding waits_def reconnect_def using loop_waits_bounded by blast
  have b: "\<forall>w \<in> set (waits cfg env). w \<le> max_reconnect_interval cfg"
    unfolding waits_def reconnect_def using loop_waits_bounded[of _ cfg "reconnect_interval cfg" 0 env] assms(3)
    by (auto simp: max_def split: if_splits)
  have e: "waits ex_config (replicate n FailedWaited) = map (\<lambda>k. min (2 ^ k) 60) [0..<n]"
    unfolding waits_def reconnect_def using ex_loop_waits[of 1 0 n] by (simp add: ex_config_def)
  from s b b2 e show ?thesis by simp
qed

theorem reconnect_backoff_waits_witness:
  "sorted (waits ex_config (replicate 9 FailedWaited))
   \<and> waits ex_config (replicate 9 FailedWaited) = [1, 2, 4, 8, 16, 32, 60, 60, 60]"
proof -
  have h: "1 \<le> reconnect_backoff ex_config" "0 \<le> reconnect_interval ex_config"
          "reconnect_interval ex_config \<le> max_reconnect_interval ex_config"
    by (simp_all add: ex_config_def)
  have u: "[0..<9] = [0, 1, 2, 3, 4, 5, 6, 7, 8]" by (simp add: upt_rec)
  show ?thesis
    using reconnect_backoff_waits[OF h, of "replicate 9 FailedWaited" ex_config 9] by (simp add: u)
qed

text \<open>
  The statement for every configuration with multiplier at least 1 fails when
  the initial interval exceeds the maximum. With initial 100, multiplier 2 and maximum 60
  the first two waits are 100 and 60.
\<close>

theorem reconnect_backoff_counterexample:
  "1 \<le> reconnect_backoff ex_config_high
   \<and> waits ex_config_high [FailedWaited, FailedWaited] = [100, 60]
   \<and> \<not> sorted (waits ex_config_high [FailedWaited, FailedWaited])"
  by (simp add: waits_def reconnect_def ex_config_high_def ex_config_def)

subsection \<open>The face database\<close>












lemma rebuild_persons: "persons (fst (rebuild_feature_matrix db)) = persons db"
  by (simp add: rebuild_feature_matrix_def Let_def)

lemma consistent_rebuild:
  "snd (rebuild_feature_matrix db) \<Longrightarrow> consistent (fst (rebuild_feature_matrix db))"
  by (simp add: consistent_def rebuild_feature_matrix_def Let_def split: if_splits)

lemma consistent_after_rebuild:
  "snd (after_rebuild db) \<noteq> None \<Longrightarrow> consistent (fst (after_rebuild db))"
  using consistent_rebuild[of db]
  by (simp add: after_rebuild_def split: prod.splits if_splits)



lemma consistent_remove_person:
  "consistent db \<Longrightarrow> snd (remove_person db pid) \<noteq> None
     \<Longrightarrow> consistent (fst (remove_person db pid))"
  by (simp add: remove_person_def consistent_after_rebuild split: if_splits)

lemma consistent_update_person_embeddings:
  "consistent db \<Longrightarrow> snd (update_person_embeddings db pid embs) \<noteq> None
     \<Longrightarrow> consistent (fst (update_person_embeddings db pid embs))"
  by (simp add: update_person_embeddings_def consistent_after_rebuild split: option.splits)

lemma consistent_clear_database: "consistent (clear_database db)"
  by (simp add: consistent_def rebuild_feature_matrix_def clear_database_def
      labelled_embeddings_def)



















subsection \<open>The tracker: loitering events\<close>

lemma wf_lookup: "wf_tracker t \<Longrightarrow> map_of (tracked_persons t) k = Some p \<Longrightarrow> tp_id p = k"
  by (auto simp: wf_tracker_def list_all_iff dest: map_of_SomeD)

lemma list_all_update:
  "list_all P al \<Longrightarrow> P (k, v) \<Longrightarrow> list_all P (AList.update k v al)"
  by (induction al) auto

lemma list_all_delete: "list_all P al \<Longrightarrow> list_all P (AList.delete k al)"
  by (induction al) auto

lemma wf_update:
  "wf_tracker t \<Longrightarrow> tp_id p = k
     \<Longrightarrow> wf_tracker (t \<lparr> tracked_persons := AList.update k p (tracked_persons t) \<rparr>)"
  by (simp add: wf_tracker_def list_all_update)

lemma update_body_keeps:
  "tp_id (update_body h w p r) = tp_id p"
  "is_stranger_body_reported (update_body h w p r) = is_stranger_body_reported p"
  "best_face_score (update_body h w p r) = best_face_score p"
  "tp_start_time (update_body h w p r) = tp_start_time p"
  by (simp_all add: update_body_def Let_def split: prod.splits)

lemma update_face_keeps:
  "tp_id (update_face p r c) = tp_id p"
  "is_stranger_body_reported (update_face p r c) = is_stranger_body_reported p"
  by (simp_all add: update_face_def Let_def)

lemma should_save_face_keeps:
  "tp_id (snd (should_save_face cd now p s)) = tp_id p"
  "is_stranger_body_reported (snd (should_save_face cd now p s)) = is_stranger_body_reported p"
  by (simp_all add: should_save_face_def Let_def)

lemma track_bodies_keeps:
  assumes "track_bodies ts h w trs (t, ids) = (t2, ids2)"
  shows "(wf_tracker t \<longrightarrow> wf_tracker t2)
       \<and> (flagged t tid \<longrightarrow> flagged t2 tid)
       \<and> is_loaded t2 = is_loaded t"
  using assms
proof (induction ts h w trs "(t, ids)" arbitrary: t ids rule: track_bodies.induct)
  case (1 timestamp h w acc)
  then show ?case by simp
next
  case (2 timestamp h w x1 y1 x2 y2 k rest t current_ids)
  show ?case
  proof (cases "real_of_int (y2 - y1) < real_of_int h * min_body_ratio t")
    case True
    with 2 show ?thesis by simp
  next
    case False
    let ?person = "case map_of (tracked_persons t) k of None \<Rightarrow> new_person k timestamp | Some p \<Rightarrow> p"
    let ?person2 = "update_body h w (?person \<lparr> last_seen_time := timestamp \<rparr>) (x1, y1, x2 - x1, y2 - y1)"
    let ?t2 = "t \<lparr> tracked_persons := AList.update k ?person2 (tracked_persons t),
                    disappeared_count := AList.update k 0 (disappeared_count t) \<rparr>"
    from "2.prems" False have r: "track_bodies timestamp h w rest (?t2, current_ids @ [k]) = (t2, ids2)"
      by (simp add: Let_def)
    have ih: "(wf_tracker ?t2 \<longrightarrow> wf_tracker t2) \<and> (flagged ?t2 tid \<longrightarrow> flagged t2 tid)
              \<and> is_loaded t2 = is_loaded ?t2"
      using "2.hyps"(2)[OF refl refl False refl refl refl r] .
    have w: "wf_tracker t \<Longrightarrow> wf_tracker ?t2"
    proof -
      assume wt: "wf_tracker t"
      have "tp_id ?person2 = k"
        using wf_lookup[OF wt] by (auto simp: update_body_keeps new_person_def split: option.splits)
      then show ?thesis using wt by (simp add: wf_tracker_def list_all_update)
    qed
    have f: "flagged t tid \<Longrightarrow> flagged ?t2 tid"
      by (auto simp: flagged_def update_conv' update_body_keeps split: option.splits)
    from ih w f show ?thesis by auto
  qed
qed

lemma create_face_event_type:
  "create_face_event p h w et = Some ev \<Longrightarrow> ev_type ev = FACE_DETECTED"
  by (auto simp: create_face_event_def Let_def split: option.splits prod.splits)

lemma create_body_event_id:
  "create_body_event p h w et = Some ev \<Longrightarrow> ev_type ev = BODY_DETECTED \<and> ev_track_id ev = tp_id p"
  by (auto simp: create_body_event_def Let_def split: option.splits prod.splits)

lemma face_step_keeps:
  assumes "face_step cd h w et trs roi face (t, evs) = (t2, r)"
  shows "(wf_tracker t \<longrightarrow> wf_tracker t2)
       \<and> (flagged t tid \<longrightarrow> flagged t2 tid)
       \<and> (\<forall>evs2. r = Some evs2 \<longrightarrow> body_events_for tid evs2 = body_events_for tid evs)"
proof -
  obtain fx1 fy1 fx2 fy2 conf now_ts where face: "face = ((fx1, fy1, fx2, fy2), conf, now_ts)"
    by (metis prod_cases3 surj_pair)
  let ?fc = "(real_of_int fx1 + real_of_int (fx2 - fx1) / 2, real_of_int fy1 + real_of_int (fy2 - fy1) / 2)"
  show ?thesis
  proof (cases "match_face_to_body ?fc trs (None, None)")
    case None
    with assms face show ?thesis by (auto simp: face_step_def Let_def)
  next
    case (Some k)
    show ?thesis
    proof (cases "k \<in> set roi")
      case False
      with assms face Some show ?thesis by (auto simp: face_step_def Let_def)
    next
      case True
      show ?thesis
      proof (cases "map_of (tracked_persons t) k")
        case None
        with assms face Some True show ?thesis by (auto simp: face_step_def Let_def)
      next
        case (Some person)
        let ?p2 = "update_face person (fx1, fy1, fx2 - fx1, fy2 - fy1) conf"
        let ?ss = "should_save_face cd now_ts ?p2 (conf * 1000)"
        let ?t3 = "t \<lparr> tracked_persons := AList.update k (snd ?ss) (tracked_persons t) \<rparr>"
        have t2: "t2 = ?t3"
          using assms face \<open>match_face_to_body ?fc trs (None, None) = Some k\<close> True Some
          by (auto simp: face_step_def Let_def split: prod.splits option.splits if_splits)
        have id3: "tp_id (snd ?ss) = tp_id person"
          and fl3: "is_stranger_body_reported (snd ?ss) = is_stranger_body_reported person"
          by (simp_all add: should_save_face_keeps update_face_keeps)
        have w: "wf_tracker t \<Longrightarrow> wf_tracker ?t3"
          using wf_lookup[OF _ Some] id3 by (simp add: wf_update)
        have f: "flagged t tid \<Longrightarrow> flagged ?t3 tid"
          using Some fl3 by (auto simp: flagged_def update_conv' split: option.splits)
        have e: "\<forall>evs2. r = Some evs2 \<longrightarrow> body_events_for tid evs2 = body_events_for tid evs"
          using assms face \<open>match_face_to_body ?fc trs (None, None) = Some k\<close> True Some
          by (auto simp: face_step_def Let_def body_events_for_def
              split: prod.splits option.splits if_splits dest!: create_face_event_type)
        from t2 w f e show ?thesis by blast
      qed
    qed
  qed
qed

lemma detect_faces_keeps:
  assumes "detect_faces cd h w et trs roi fs (t, evs) = (t2, r)"
  shows "(wf_tracker t \<longrightarrow> wf_tracker t2)
       \<and> (flagged t tid \<longrightarrow> flagged t2 tid)
       \<and> (\<forall>evs2. r = Some evs2 \<longrightarrow> body_events_for tid evs2 = body_events_for tid evs)"
  using assms
proof (induction fs arbitrary: t evs)
  case Nil
  then show ?case by auto
next
  case (Cons face rest)
  obtain t1 r1 where s: "face_step cd h w et trs roi face (t, evs) = (t1, r1)"
    by (cases "face_step cd h w et trs roi face (t, evs)")
  note k = face_step_keeps[OF s, of tid]
  show ?case
  proof (cases r1)
    case None
    with Cons.prems s k show ?thesis by auto
  next
    case (Some evs1)
    with Cons.prems s have "detect_faces cd h w et trs roi rest (t1, evs1) = (t2, r)" by simp
    from Cons.IH[OF this] k Some show ?thesis by auto
  qed
qed

lemma loiter_step_keeps:
  assumes "loiter_step ts h w et k (t, evs) = (t2, r)"
  shows "(wf_tracker t \<longrightarrow> wf_tracker t2)
       \<and> (flagged t tid \<longrightarrow> flagged t2 tid)
       \<and> loiter_view t2 tid = loiter_view t tid"
  using assms wf_lookup[of t k]
  by (auto simp: loiter_step_def Let_def flagged_def loiter_view_def update_conv' wf_update
      split: option.splits if_splits)

lemma loiter_step_events:
  assumes "loiter_step ts h w et k (t, evs) = (t2, Some evs2)" and "wf_tracker t"
  shows "body_events_for tid evs2 = body_events_for tid evs
       \<or> (\<exists>e. body_events_for tid evs2 = body_events_for tid evs @ [e]
             \<and> k = tid \<and> flagged t2 tid \<and> \<not> flagged t tid
             \<and> (\<exists>p. map_of (tracked_persons t2) tid = Some p
                    \<and> best_face_score p < 300 \<and> ts - tp_start_time p > 1))"
proof (cases "map_of (tracked_persons t) k")
  case None
  with assms show ?thesis by (simp add: loiter_step_def)
next
  case (Some person)
  have idk: "tp_id person = k" using wf_lookup[OF assms(2) Some] .
  show ?thesis
  proof (cases "best_face_score person < 300 \<and> ts - tp_start_time person > 1
                  \<and> \<not> is_stranger_body_reported person")
    case False
    with assms Some show ?thesis by (auto simp: loiter_step_def Let_def)
  next
    case True
    with assms(1) Some obtain ev where
      ev: "create_body_event person h w et = Some ev"
      and t2: "t2 = t \<lparr> tracked_persons :=
                         AList.update k (person \<lparr> is_stranger_body_reported := True \<rparr>)
                           (tracked_persons t) \<rparr>"
      and evs2: "evs2 = evs @ [ev]"
      by (auto simp: loiter_step_def Let_def split: option.splits)
    from create_body_event_id[OF ev] idk have e: "ev_type ev = BODY_DETECTED" "ev_track_id ev = k"
      by simp_all
    show ?thesis
    proof (cases "k = tid")
      case False
      with e evs2 show ?thesis by (simp add: body_events_for_def)
    next
      case kt: True
      have "body_events_for tid evs2 = body_events_for tid evs @ [ev]"
        using e evs2 kt by (simp add: body_events_for_def)
      moreover have "flagged t2 tid" using t2 kt by (simp add: flagged_def update_conv')
      moreover have "\<not> flagged t tid" using Some True kt by (simp add: flagged_def)
      moreover have "\<exists>p. map_of (tracked_persons t2) tid = Some p
                    \<and> best_face_score p < 300 \<and> ts - tp_start_time p > 1"
        using t2 kt True by (simp add: update_conv')
      ultimately show ?thesis using kt by blast
    qed
  qed
qed

lemma loiter_step_flagged_events:
  assumes "loiter_step ts h w et k (t, evs) = (t2, Some evs2)" and "wf_tracker t"
    and "flagged t tid"
  shows "body_events_for tid evs2 = body_events_for tid evs"
  using loiter_step_events[OF assms(1,2), of tid] assms(3) by auto

lemma check_loitering_keeps:
  assumes "check_loitering ts h w et ids (t, evs) = (t2, r)"
  shows "(wf_tracker t \<longrightarrow> wf_tracker t2)
       \<and> (flagged t tid \<longrightarrow> flagged t2 tid)
       \<and> loiter_view t2 tid = loiter_view t tid"
  using assms
proof (induction ids arbitrary: t evs)
  case Nil
  then show ?case by auto
next
  case (Cons k rest)
  obtain t1 r1 where s: "loiter_step ts h w et k (t, evs) = (t1, r1)"
    by (cases "loiter_step ts h w et k (t, evs)")
  note k = loiter_step_keeps[OF s, of tid]
  show ?case
  proof (cases r1)
    case None
    with Cons.prems s k show ?thesis by auto
  next
    case (Some evs1)
    with Cons.prems s have "check_loitering ts h w et rest (t1, evs1) = (t2, r)" by simp
    from Cons.IH[OF this] k show ?thesis by auto
  qed
qed

lemma check_loitering_flagged_events:
  assumes "check_loitering ts h w et ids (t, evs) = (t2, Some evs2)" and "wf_tracker t"
    and "flagged t tid"
  shows "body_events_for tid evs2 = body_events_for tid evs"
  using assms
proof (induction ids arbitrary: t evs)
  case Nil
  then show ?case by auto
next
  case (Cons k rest)
  obtain t1 r1 where s: "loiter_step ts h w et k (t, evs) = (t1, r1)"
    by (cases "loiter_step ts h w et k (t, evs)")
  with Cons.prems(1) obtain evs1 where r1: "r1 = Some evs1"
    and rest: "check_loitering ts h w et rest (t1, evs1) = (t2, Some evs2)"
    by (cases r1) auto
  note k = loiter_step_keeps[OF s, of tid]
  have "body_events_for tid evs1 = body_events_for tid evs"
    using loiter_step_flagged_events[OF s[unfolded r1] Cons.prems(2,3)] .
  moreover have "body_events_for tid evs2 = body_events_for tid evs1"
    using Cons.IH[OF rest] k Cons.prems(2,3) by auto
  ultimately show ?case by simp
qed

lemma check_loitering_events:
  assumes "check_loitering ts h w et ids (t, evs) = (t2, Some evs2)" and "wf_tracker t"
  shows "body_events_for tid evs2 = body_events_for tid evs
       \<or> (\<exists>e. body_events_for tid evs2 = body_events_for tid evs @ [e]
             \<and> tid \<in> set ids \<and> flagged t2 tid \<and> \<not> flagged t tid
             \<and> (\<exists>p. map_of (tracked_persons t2) tid = Some p
                    \<and> best_face_score p < 300 \<and> ts - tp_start_time p > 1))"
  using assms
proof (induction ids arbitrary: t evs)
  case Nil
  then show ?case by auto
next
  case (Cons k rest)
  obtain t1 r1 where s: "loiter_step ts h w et k (t, evs) = (t1, r1)"
    by (cases "loiter_step ts h w et k (t, evs)")
  with Cons.prems(1) obtain evs1 where r1: "r1 = Some evs1"
    and rest: "check_loitering ts h w et rest (t1, evs1) = (t2, Some evs2)"
    by (cases r1) auto
  note sk = loiter_step_keeps[OF s, of tid]
  have wf1: "wf_tracker t1" using sk Cons.prems(2) by simp
  note rk = check_loitering_keeps[OF rest, of tid]
  from loiter_step_events[OF s[unfolded r1] Cons.prems(2), of tid]
  show ?case
  proof
    assume same: "body_events_for tid evs1 = body_events_for tid evs"
    from Cons.IH[OF rest wf1] show ?thesis
    proof
      assume "body_events_for tid evs2 = body_events_for tid evs1"
      with same show ?thesis by simp
    next
      assume "\<exists>e. body_events_for tid evs2 = body_events_for tid evs1 @ [e]
             \<and> tid \<in> set rest \<and> flagged t2 tid \<and> \<not> flagged t1 tid
             \<and> (\<exists>p. map_of (tracked_persons t2) tid = Some p
                    \<and> best_face_score p < 300 \<and> ts - tp_start_time p > 1)"
      with same sk show ?thesis by auto
    qed
  next
    assume "\<exists>e. body_events_for tid evs1 = body_events_for tid evs @ [e]
             \<and> k = tid \<and> flagged t1 tid \<and> \<not> flagged t tid
             \<and> (\<exists>p. map_of (tracked_persons t1) tid = Some p
                    \<and> best_face_score p < 300 \<and> ts - tp_start_time p > 1)"
    then obtain e p where e: "body_events_for tid evs1 = body_events_for tid evs @ [e]"
      "k = tid" "flagged t1 tid" "\<not> flagged t tid"
      "map_of (tracked_persons t1) tid = Some p" "best_face_score p < 300"
      "ts - tp_start_time p > 1"
      by blast
    have "body_events_for tid evs2 = body_events_for tid evs1"
      using check_loitering_flagged_events[OF rest wf1 e(3)] .
    moreover have "flagged t2 tid" using rk e(3) by simp
    moreover have "\<exists>p2. map_of (tracked_persons t2) tid = Some p2
                    \<and> best_face_score p2 < 300 \<and> ts - tp_start_time p2 > 1"
    proof -
      have "loiter_view t2 tid = loiter_view t1 tid" using rk by simp
      with e(5,6,7) show ?thesis by (auto simp: loiter_view_def)
    qed
    ultimately show ?thesis using e by auto
  qed
qed

lemma departure_step_keeps:
  assumes "departure_step active k t = (t2, ok)"
  shows "(wf_tracker t \<longrightarrow> wf_tracker t2)
       \<and> (tid \<in> set active \<longrightarrow> map_of (tracked_persons t2) tid = map_of (tracked_persons t) tid)
       \<and> (map_of (tracked_persons t2) tid = map_of (tracked_persons t) tid
            \<or> map_of (tracked_persons t2) tid = None)"
  using assms
  by (auto simp: departure_step_def Let_def wf_tracker_def list_all_delete delete_conv'
      split: option.splits if_splits)

lemma check_departures_keeps:
  assumes "check_departures active ks t = (t2, ok)"
  shows "(wf_tracker t \<longrightarrow> wf_tracker t2)
       \<and> (tid \<in> set active \<longrightarrow> map_of (tracked_persons t2) tid = map_of (tracked_persons t) tid)
       \<and> (map_of (tracked_persons t2) tid = map_of (tracked_persons t) tid
            \<or> map_of (tracked_persons t2) tid = None)"
  using assms
proof (induction ks arbitrary: t)
  case Nil
  then show ?case by auto
next
  case (Cons k rest)
  obtain t1 ok1 where s: "departure_step active k t = (t1, ok1)"
    by (cases "departure_step active k t")
  note sk = departure_step_keeps[OF s, of tid]
  show ?case
  proof (cases ok1)
    case False
    with Cons.prems s sk show ?thesis by auto
  next
    case True
    with Cons.prems s have "check_departures active rest t1 = (t2, ok)" by simp
    from Cons.IH[OF this] sk show ?thesis by auto
  qed
qed

lemma bef_Nil: "body_events_for tid [] = []"
  by (simp add: body_events_for_def)

lemma process_step:
  assumes p: "process settings t frame ts = (t2, r)" and wf: "wf_tracker t"
  shows "wf_tracker t2
       \<and> (flagged t tid \<longrightarrow> tracked t2 tid \<longrightarrow> flagged t2 tid)
       \<and> (\<forall>evs. r = Some evs \<longrightarrow>
            (flagged t tid \<longrightarrow> body_events_for tid evs = [])
            \<and> (body_events_for tid evs = []
                 \<or> (\<exists>e. body_events_for tid evs = [e] \<and> flagged t2 tid \<and> \<not> flagged t tid
                        \<and> (\<exists>q. map_of (tracked_persons t2) tid = Some q
                               \<and> best_face_score q < 300 \<and> ts - tp_start_time q > 1))))"
proof (cases "frame = None \<or> \<not> is_loaded t")
  case True
  with p have "t2 = t" "r = Some []" by (auto simp: process_def split: option.splits)
  with wf show ?thesis by (simp add: bef_Nil)
next
  case False
  then obtain obs where obs: "frame = Some obs" and loaded: "is_loaded t" by auto
  let ?trs = "case tracks obs of None \<Rightarrow> [] | Some l \<Rightarrow> l"
  obtain t1 ids where tb: "track_bodies ts (h_img obs) (w_img obs) ?trs (t, []) = (t1, ids)"
    by (cases "track_bodies ts (h_img obs) (w_img obs) ?trs (t, [])")
  let ?roi = "roi_person_ids (DETECTION_ROI settings) (h_img obs) (w_img obs) ?trs ids"
  let ?faces = "if ?roi \<noteq> []
                then detect_faces (real_of_int (ALERT_COOLDOWN_SECONDS settings)) (h_img obs)
                       (w_img obs) (event_time obs) ?trs ?roi (faces obs) (t1, [])
                else (t1, Some [])"
  obtain ta ra where df: "?faces = (ta, ra)" by (cases ?faces)
  note k1 = track_bodies_keeps[OF tb, of tid]
  have wf1: "wf_tracker t1" using k1 wf by simp
  have k2: "(wf_tracker t1 \<longrightarrow> wf_tracker ta) \<and> (flagged t1 tid \<longrightarrow> flagged ta tid)
            \<and> (\<forall>evs2. ra = Some evs2 \<longrightarrow> body_events_for tid evs2 = body_events_for tid [])"
  proof (cases "?roi \<noteq> []")
    case True
    with df have "detect_faces (real_of_int (ALERT_COOLDOWN_SECONDS settings)) (h_img obs)
                       (w_img obs) (event_time obs) ?trs ?roi (faces obs) (t1, []) = (ta, ra)"
      by simp
    from detect_faces_keeps[OF this, of tid] show ?thesis .
  next
    case False
    with df show ?thesis by auto
  qed
  have wfa: "wf_tracker ta" using k2 wf1 by simp
  show ?thesis
  proof (cases ra)
    case None
    with p obs loaded tb df have "t2 = ta" "r = None"
      by (simp_all add: process_def Let_def split: if_splits)
    moreover have "flagged t tid \<longrightarrow> flagged ta tid" using k1 k2 by simp
    ultimately show ?thesis using wfa by simp
  next
    case (Some evs1)
    have b1: "body_events_for tid evs1 = []" using k2 Some by (simp add: bef_Nil)
    obtain tb2 rb where cl: "check_loitering ts (h_img obs) (w_img obs) (event_time obs) ids (ta, evs1) = (tb2, rb)"
      by (cases "check_loitering ts (h_img obs) (w_img obs) (event_time obs) ids (ta, evs1)")
    note k3 = check_loitering_keeps[OF cl, of tid]
    have wfb: "wf_tracker tb2" using k3 wfa by simp
    show ?thesis
    proof (cases rb)
      case None
      with p obs loaded tb df Some cl have "t2 = tb2" "r = None"
        by (simp_all add: process_def Let_def split: if_splits)
      moreover have "flagged t tid \<longrightarrow> flagged tb2 tid" using k1 k2 k3 by simp
      ultimately show ?thesis using wfb by simp
    next
      case (Some evs2)
      note rb = Some
      obtain tc ok where cd: "check_departures ids (map fst (tracked_persons tb2)) tb2 = (tc, ok)"
        by (cases "check_departures ids (map fst (tracked_persons tb2)) tb2")
      note k4 = check_departures_keeps[OF cd, of tid]
      from p obs loaded tb df \<open>ra = Some evs1\<close> cl rb cd
      have res: "t2 = tc" "r = (if ok then Some evs2 else None)"
        by (simp_all add: process_def Let_def split: if_splits)
      have wfc: "wf_tracker tc" using k4 wfb by simp
      have fl: "flagged t tid \<longrightarrow> tracked tc tid \<longrightarrow> flagged tc tid"
      proof (intro impI)
        assume f: "flagged t tid" and tr: "tracked tc tid"
        have "flagged tb2 tid" using f k1 k2 k3 by simp
        moreover have "map_of (tracked_persons tc) tid = map_of (tracked_persons tb2) tid"
          using k4 tr by (auto simp: tracked_def)
        ultimately show "flagged tc tid" by (simp add: flagged_def)
      qed
      have ev: "(flagged t tid \<longrightarrow> body_events_for tid evs2 = [])
            \<and> (body_events_for tid evs2 = []
                 \<or> (\<exists>e. body_events_for tid evs2 = [e] \<and> flagged tc tid \<and> \<not> flagged t tid
                        \<and> (\<exists>q. map_of (tracked_persons tc) tid = Some q
                               \<and> best_face_score q < 300 \<and> ts - tp_start_time q > 1)))"
      proof -
        have a: "flagged t tid \<longrightarrow> body_events_for tid evs2 = []"
        proof
          assume "flagged t tid"
          then have "flagged ta tid" using k1 k2 by simp
          from check_loitering_flagged_events[OF cl[unfolded rb] wfa this] b1
          show "body_events_for tid evs2 = []" by simp
        qed
        from check_loitering_events[OF cl[unfolded rb] wfa, of tid]
        have b: "body_events_for tid evs2 = []
                 \<or> (\<exists>e. body_events_for tid evs2 = [e] \<and> flagged tc tid \<and> \<not> flagged t tid
                        \<and> (\<exists>q. map_of (tracked_persons tc) tid = Some q
                               \<and> best_face_score q < 300 \<and> ts - tp_start_time q > 1))"
        proof
          assume "body_events_for tid evs2 = body_events_for tid evs1"
          with b1 show ?thesis by simp
        next
          assume "\<exists>e. body_events_for tid evs2 = body_events_for tid evs1 @ [e]
             \<and> tid \<in> set ids \<and> flagged tb2 tid \<and> \<not> flagged ta tid
             \<and> (\<exists>p. map_of (tracked_persons tb2) tid = Some p
                    \<and> best_face_score p < 300 \<and> ts - tp_start_time p > 1)"
          then obtain e q where e: "body_events_for tid evs2 = body_events_for tid evs1 @ [e]"
            "tid \<in> set ids" "flagged tb2 tid" "\<not> flagged ta tid"
            "map_of (tracked_persons tb2) tid = Some q" "best_face_score q < 300"
            "ts - tp_start_time q > 1"
            by blast
          have same: "map_of (tracked_persons tc) tid = map_of (tracked_persons tb2) tid"
            using k4 e(2) by simp
          have "flagged tc tid" using e(3) same by (simp add: flagged_def)
          moreover have "\<not> flagged t tid" using e(4) k1 k2 by auto
          ultimately show ?thesis using e b1 same by auto
        qed
        from a b show ?thesis by simp
      qed
      from res wfc fl ev show ?thesis by auto
    qed
  qed
qed

lemma bef_append:
  "body_events_for tid (xs @ ys) = body_events_for tid xs @ body_events_for tid ys"
  by (simp add: body_events_for_def)

lemma flagged_tracked: "flagged t tid \<Longrightarrow> tracked t tid"
  by (auto simp: flagged_def tracked_def split: option.splits)

lemma run_tracker_events:
  assumes "wf_tracker t" and "never_evicted settings tid t frames"
  shows "length (body_events_for tid (snd (run_tracker settings t frames))) \<le> 1
       \<and> (flagged t tid \<longrightarrow> body_events_for tid (snd (run_tracker settings t frames)) = [])"
  using assms
proof (induction frames arbitrary: t)
  case Nil
  then show ?case by (simp add: bef_Nil)
next
  case (Cons f rest)
  obtain frame ts where f: "f = (frame, ts)" by (cases f)
  obtain t2 r where p: "process settings t frame ts = (t2, r)"
    by (cases "process settings t frame ts")
  obtain t3 evs where rn: "run_tracker settings t2 rest = (t3, evs)"
    by (cases "run_tracker settings t2 rest")
  note st = process_step[OF p Cons.prems(1), of tid]
  have wf2: "wf_tracker t2" using st by simp
  from Cons.prems(2) f p have ne: "tracked t tid \<longrightarrow> tracked t2 tid"
    and ne2: "never_evicted settings tid t2 rest" by simp_all
  from Cons.IH[OF wf2 ne2] rn
  have ih: "length (body_events_for tid evs) \<le> 1" "flagged t2 tid \<longrightarrow> body_events_for tid evs = []"
    by simp_all
  have res: "snd (run_tracker settings t (f # rest)) = (case r of None \<Rightarrow> [] | Some es \<Rightarrow> es) @ evs"
    by (simp add: f p rn)
  show ?case
  proof (cases r)
    case None
    have "flagged t tid \<longrightarrow> flagged t2 tid" using st ne flagged_tracked by blast
    with None res ih show ?thesis by (simp add: bef_Nil)
  next
    case (Some es)
    have a: "flagged t tid \<longrightarrow> body_events_for tid es = [] \<and> flagged t2 tid"
      using st Some ne flagged_tracked by blast
    have b: "body_events_for tid es = [] \<or> (length (body_events_for tid es) = 1 \<and> flagged t2 tid)"
      using st Some by auto
    from a b ih res Some show ?thesis by (auto simp: bef_append)
  qed
qed

text \<open>
  Claim C9 (loitering emits once). From a tracker whose entries are stored under their
  own ids, over any run of frames during which the entry of a track id is never evicted,
  at most one loitering event of that track is returned, and none when the entry was
  already flagged. In any single call, a loitering event of the track is returned only if
  the entry was not flagged before the call, and then the entry is flagged after it, its
  best face score is below 300 and its dwell time exceeds one second.
\<close>

theorem loitering_emits_once:
  assumes "wf_tracker t" and "never_evicted settings tid t frames" and "wf_tracker t0"
  shows "length (body_events_for tid (snd (run_tracker settings t frames))) \<le> 1
       \<and> (flagged t tid \<longrightarrow> body_events_for tid (snd (run_tracker settings t frames)) = [])
       \<and> (\<forall>evs. snd (process settings t0 frame ts) = Some evs \<longrightarrow>
             length (body_events_for tid evs) \<le> 1
             \<and> (body_events_for tid evs \<noteq> [] \<longrightarrow>
                  \<not> flagged t0 tid
                  \<and> flagged (fst (process settings t0 frame ts)) tid
                  \<and> (\<exists>q. map_of (tracked_persons (fst (process settings t0 frame ts))) tid = Some q
                         \<and> best_face_score q < 300 \<and> ts - tp_start_time q > 1)))"
proof -
  obtain t2 r where p: "process settings t0 frame ts = (t2, r)"
    by (cases "process settings t0 frame ts")
  from process_step[OF p assms(3), of tid] p
  have "\<forall>evs. snd (process settings t0 frame ts) = Some evs \<longrightarrow>
             length (body_events_for tid evs) \<le> 1
             \<and> (body_events_for tid evs \<noteq> [] \<longrightarrow>
                  \<not> flagged t0 tid
                  \<and> flagged (fst (process settings t0 frame ts)) tid
                  \<and> (\<exists>q. map_of (tracked_persons (fst (process settings t0 frame ts))) tid = Some q
                         \<and> best_face_score q < 300 \<and> ts - tp_start_time q > 1))"
    by auto
  with run_tracker_events[OF assms(1,2)] show ?thesis by blast
qed

lemma ex_body: "update_body 100 100 p (40, 20, 20, 60) =
    (if 180 > best_body_score p then p \<lparr> best_body_score := 180, best_body_box := Some (40, 20, 20, 60) \<rparr> else p)"
  by (simp add: update_body_def Let_def)

lemma ex_in_roi: "in_roi [15 / 100, 25 / 100, 85 / 100, 95 / 100] 100 100 (40, 20, 60, 80)"
  by (simp add: in_roi_def py_int_def Let_def)

lemmas ex_eval = process_def ex_obs_def ex_settings_def new_tracker_def Let_def ex_body
         roi_person_ids_def ex_in_roi new_person_def loiter_step_def departure_step_def
         create_body_event_def tracked_def py_int_def

lemma ex_run:
  "map (\<lambda>e. (ev_type e, ev_track_id e)) (snd (run_tracker ex_settings (new_tracker True) ex_frames))
     = [(BODY_DETECTED, 7)]"
  by (simp add: ex_frames_def ex_eval)

lemma ex_never: "never_evicted ex_settings 7 (new_tracker True) ex_frames"
  by (simp add: ex_frames_def ex_eval)

theorem loitering_emits_once_witness:
  "length (body_events_for 7 (snd (run_tracker ex_settings (new_tracker True) ex_frames))) \<le> 1
   \<and> map (\<lambda>e. (ev_type e, ev_track_id e))
         (snd (run_tracker ex_settings (new_tracker True) ex_frames)) = [(BODY_DETECTED, 7)]"
proof -
  have h1: "wf_tracker (new_tracker True)"
    by (simp add: wf_tracker_def new_tracker_def)
  have "length (body_events_for 7 (snd (run_tracker ex_settings (new_tracker True) ex_frames))) \<le> 1"
    using loitering_emits_once[OF h1 ex_never h1] by (rule conjunct1)
  with ex_run show ?thesis by simp
qed

subsection \<open>The tracker: face events\<close>

























end
